theory Spec2Isabelle
  imports Complex_Main "HOL-Library.Word" "HOL-Library.Sublist"
begin

unbundle bit_operations_syntax

section \<open>JavaScript strings and numbers as script.js uses them\<close>

text \<open>
  A JavaScript string is a sequence of UTF-16 code units, and \<^verbatim>\<open>charCodeAt\<close> returns
  the code unit as a number. A code unit is modelled by that number and a string by the
  list of its code units; \<^verbatim>\<open>length\<close>, \<^verbatim>\<open>substring\<close> and \<^verbatim>\<open>+\<close> are
  \<open>length\<close>, \<open>take\<close> and \<open>@\<close>. Nothing below depends on a code unit being less than
  \<open>2 ^ 16\<close>. \<open>js ''abc''\<close> is the string written \<^verbatim>\<open>'abc'\<close> in the source and
  \<open>cu CHR ''a''\<close> the code unit of the character \<^verbatim>\<open>a\<close>.

  \<^verbatim>\<open>String.prototype.toLowerCase\<close> follows the Unicode case mappings (it can even change
  the length of a string); it is supplied by the engine and is a parameter of the model,
  see \<open>platform\<close> below.
\<close>

type_synonym code_unit = nat

type_synonym js_string = "code_unit list"

abbreviation cu :: "char \<Rightarrow> code_unit" where
  "cu \<equiv> of_char"

abbreviation js :: "string \<Rightarrow> js_string" where
  "js \<equiv> map of_char"

text \<open>
  \<^verbatim>\<open>ToInt32\<close> of ECMAScript: the value modulo \<open>2 ^ 32\<close>, read as two's complement.
  The bitwise operators \<^verbatim>\<open><<\<close> and \<^verbatim>\<open>&\<close> apply it to their operands and
  return an int32; \<^verbatim>\<open>+\<close> and \<^verbatim>\<open>-\<close> are the exact arithmetic of numbers
  (every intermediate value of the hash below is far inside the range where doubles
  are exact).
\<close>

definition ToInt32 :: "int \<Rightarrow> int" where
  "ToInt32 x = (x + 2 ^ 31) mod 2 ^ 32 - 2 ^ 31"

definition js_shl :: "int \<Rightarrow> nat \<Rightarrow> int" where
  "js_shl x k = ToInt32 (ToInt32 x * 2 ^ (k mod 32))"

definition js_and :: "int \<Rightarrow> int \<Rightarrow> int" where
  "js_and x y = sint ((word_of_int x :: 32 word) AND word_of_int y)"

text \<open>
  \<^verbatim>\<open>Number.prototype.toString(36)\<close> on a non-negative integer (the only numbers
  it is applied to here): the digits \<^verbatim>\<open>0-9a-z\<close>, most significant first,
  \<^verbatim>\<open>"0"\<close> for zero.
\<close>

definition digit36 :: "nat \<Rightarrow> code_unit" where
  "digit36 d = (if d < 10 then cu CHR ''0'' + d else cu CHR ''a'' + (d - 10))"

function toString36 :: "int \<Rightarrow> js_string" where
  "toString36 n =
     (if n < 36 then [digit36 (nat n)]
      else toString36 (n div 36) @ [digit36 (nat (n mod 36))])"
  by pat_completeness auto
termination
  by (relation "measure nat") auto

declare toString36.simps [simp del]

subsection \<open>The regular expressions of script.js\<close>

text \<open>
  The character classes \<^verbatim>\<open>\w\<close> (\<^verbatim>\<open>[A-Za-z0-9_]\<close>) and \<^verbatim>\<open>\s\<close>: the white space
  and line terminators of ECMAScript, which are the code units 9 to 13, 32, 160
  (\<^verbatim>\<open>U+00A0\<close>), 5760 (\<^verbatim>\<open>U+1680\<close>), 8192 to 8202 (\<^verbatim>\<open>U+2000\<close> to
  \<^verbatim>\<open>U+200A\<close>), 8232, 8233 (\<^verbatim>\<open>U+2028\<close>, \<^verbatim>\<open>U+2029\<close>), 8239 (\<^verbatim>\<open>U+202F\<close>),
  8287 (\<^verbatim>\<open>U+205F\<close>), 12288 (\<^verbatim>\<open>U+3000\<close>) and 65279 (\<^verbatim>\<open>U+FEFF\<close>).
  \<^verbatim>\<open>String.prototype.trim\<close> removes the same set from both ends.
\<close>

definition isWordChar :: "code_unit \<Rightarrow> bool" where
  "isWordChar c =
     ((48 \<le> c \<and> c \<le> 57) \<or> (65 \<le> c \<and> c \<le> 90) \<or> c = 95 \<or> (97 \<le> c \<and> c \<le> 122))"

definition isSpace :: "code_unit \<Rightarrow> bool" where
  "isSpace c =
     ((9 \<le> c \<and> c \<le> 13) \<or> c = 32 \<or> c = 160 \<or> c = 5760 \<or> (8192 \<le> c \<and> c \<le> 8202)
      \<or> c = 8232 \<or> c = 8233 \<or> c = 8239 \<or> c = 8287 \<or> c = 12288 \<or> c = 65279)"

definition trim :: "js_string \<Rightarrow> js_string" where
  "trim s = rev (dropWhile isSpace (rev (dropWhile isSpace s)))"

text \<open>\<^verbatim>\<open>.replace(/[^\w\s]/g, '')\<close>: every character outside both classes is deleted.\<close>

definition removeNonWordNonSpace :: "js_string \<Rightarrow> js_string" where
  "removeNonWordNonSpace s = filter (\<lambda>c. isWordChar c \<or> isSpace c) s"

text \<open>\<^verbatim>\<open>.replace(/\s+/g, ' ')\<close>: every maximal run of white space becomes one space.\<close>

function collapseSpaces :: "js_string \<Rightarrow> js_string" where
  "collapseSpaces [] = []"
| "collapseSpaces (c # cs) =
     (if isSpace c then cu CHR '' '' # collapseSpaces (dropWhile isSpace cs)
      else c # collapseSpaces cs)"
  by pat_completeness auto
termination
  by (relation "measure length") (auto simp: length_dropWhile_le less_Suc_eq_le)

text \<open>
  \<^verbatim>\<open>.replace(/<[^>]*>/g, '')\<close>: a \<^verbatim>\<open><\<close> matches together with everything up to
  the next \<^verbatim>\<open>>\<close>; a \<^verbatim>\<open><\<close> with no \<^verbatim>\<open>>\<close> after it stays.
\<close>

function stripTags :: "js_string \<Rightarrow> js_string" where
  "stripTags [] = []"
| "stripTags (c # cs) =
     (if c = cu CHR ''<'' \<and> cu CHR ''>'' \<in> set cs
      then stripTags (tl (dropWhile (\<lambda>x. x \<noteq> cu CHR ''>'') cs))
      else c # stripTags cs)"
  by pat_completeness auto
termination
proof (relation "measure length")
  fix c :: code_unit and cs :: js_string
  have "length (tl (dropWhile (\<lambda>x. x \<noteq> cu CHR ''>'') cs)) \<le> length cs"
    using length_dropWhile_le [of "\<lambda>x. x \<noteq> cu CHR ''>''" cs] by simp
  then show "(tl (dropWhile (\<lambda>x. x \<noteq> cu CHR ''>'') cs), c # cs) \<in> measure length"
    by simp
qed auto

text \<open>
  \<^verbatim>\<open>.replace(/&[^;]+;/g, ' ')\<close>: an \<^verbatim>\<open>&\<close>, at least one character other than
  \<^verbatim>\<open>;\<close>, and the next \<^verbatim>\<open>;\<close> become one space.
\<close>

function stripEntities :: "js_string \<Rightarrow> js_string" where
  "stripEntities [] = []"
| "stripEntities (c # cs) =
     (if c = cu CHR ''&'' \<and> cs \<noteq> [] \<and> hd cs \<noteq> cu CHR '';'' \<and> cu CHR '';'' \<in> set cs
      then cu CHR '' '' # stripEntities (tl (dropWhile (\<lambda>x. x \<noteq> cu CHR '';'') cs))
      else c # stripEntities cs)"
  by pat_completeness auto
termination
proof (relation "measure length")
  fix c :: code_unit and cs :: js_string
  have "length (tl (dropWhile (\<lambda>x. x \<noteq> cu CHR '';'') cs)) \<le> length cs"
    using length_dropWhile_le [of "\<lambda>x. x \<noteq> cu CHR '';''" cs] by simp
  then show "(tl (dropWhile (\<lambda>x. x \<noteq> cu CHR '';'') cs), c # cs) \<in> measure length"
    by simp
qed auto

text \<open>
  Matching with the flag \<^verbatim>\<open>i\<close>: the patterns of script.js that carry it consist of
  ASCII characters only, and ECMAScript never lets a character outside ASCII match an
  ASCII one, so a pattern in lower case matches exactly the input whose letters
  \<^verbatim>\<open>A-Z\<close> are replaced by \<^verbatim>\<open>a-z\<close>.
\<close>

definition asciiLower :: "code_unit \<Rightarrow> code_unit" where
  "asciiLower c = (if 65 \<le> c \<and> c \<le> 90 then c + 32 else c)"

text \<open>
  \<^verbatim>\<open>description.match(/<img[^>]+src=["']([^"']+)["']/i)\<close>, group 1 of the leftmost
  match. \<open>srcAt\<close> matches \<^verbatim>\<open>src=["']([^"']+)["']\<close> at the start of a string: the
  group is the longest run without a quote, and a quote has to follow it. \<open>imgBacktrack\<close>
  is the greedy \<^verbatim>\<open>[^>]+\<close>: it tries the longest run first and gives back one
  character at a time, down to one.
\<close>

definition isQuote :: "code_unit \<Rightarrow> bool" where
  "isQuote c = (c = cu (CHR 0x22) \<or> c = cu (CHR 0x27))"

definition srcAt :: "js_string \<Rightarrow> js_string option" where
  "srcAt s =
     (if prefix (js ''src='') (map asciiLower s) then
        (case drop 4 s of
           [] \<Rightarrow> None
         | q # r \<Rightarrow>
             if isQuote q \<and> takeWhile (\<lambda>c. \<not> isQuote c) r \<noteq> [] \<and> dropWhile (\<lambda>c. \<not> isQuote c) r \<noteq> []
             then Some (takeWhile (\<lambda>c. \<not> isQuote c) r) else None)
      else None)"

fun imgBacktrack :: "js_string \<Rightarrow> nat \<Rightarrow> js_string option" where
  "imgBacktrack rest 0 = None"
| "imgBacktrack rest (Suc k) =
     (case srcAt (drop (Suc k) rest) of Some v \<Rightarrow> Some v | None \<Rightarrow> imgBacktrack rest k)"

definition imgAt :: "js_string \<Rightarrow> js_string option" where
  "imgAt s =
     (if prefix (js ''<img'') (map asciiLower s)
      then imgBacktrack (drop 4 s) (length (takeWhile (\<lambda>c. c \<noteq> cu CHR ''>'') (drop 4 s)))
      else None)"

fun imgSrcMatch :: "js_string \<Rightarrow> js_string option" where
  "imgSrcMatch [] = None"
| "imgSrcMatch (c # cs) =
     (case imgAt (c # cs) of Some v \<Rightarrow> Some v | None \<Rightarrow> imgSrcMatch cs)"

section \<open>Data model\<close>

text \<open>
  What the browser supplies and script.js only calls: the XML parser, the URL parser,
  the date parser and the lower-casing of strings. They are parameters of the model.
  \<open>toLowerCase\<close> is \<^verbatim>\<open>String.prototype.toLowerCase\<close>. \<open>newURL\<close> is \<^verbatim>\<open>new URL(url)\<close>
  (\<open>None\<close> when the constructor throws), with the three properties the code reads;
  \<open>href\<close> is what \<^verbatim>\<open>toString()\<close> returns, the canonical form. \<open>newDate\<close> is the
  time value in milliseconds of \<^verbatim>\<open>new Date(dateString)\<close>, \<open>None\<close> for an invalid date.
  \<open>parseFromString\<close> yields the \<^verbatim>\<open>item\<close> elements of the document in document order,
  or \<open>ParserError\<close> when the document holds a \<^verbatim>\<open>parsererror\<close> element.
\<close>

record url_obj =
  protocol :: js_string
  pathname :: js_string
  href :: js_string

text \<open>
  An \<^verbatim>\<open>item\<close> element, as far as script.js looks into it: the text content of the
  first \<^verbatim>\<open>title\<close>, \<^verbatim>\<open>description\<close>, \<^verbatim>\<open>link\<close>, \<^verbatim>\<open>guid\<close> and
  \<^verbatim>\<open>pubDate\<close> descendant (\<open>None\<close> when there is no such element), the
  \<^verbatim>\<open>url\<close> attribute of the first \<^verbatim>\<open>content\<close> or \<^verbatim>\<open>thumbnail\<close> descendant,
  and the \<^verbatim>\<open>type\<close> and \<^verbatim>\<open>url\<close> attributes of the first \<^verbatim>\<open>enclosure\<close>.
\<close>

record item =
  el_title :: "js_string option"
  el_description :: "js_string option"
  el_link :: "js_string option"
  el_guid :: "js_string option"
  el_pubDate :: "js_string option"
  el_media :: "js_string option option"
  el_enclosure :: "(js_string option \<times> js_string option) option"

datatype xml_doc = ParserError | Document "item list"

record platform =
  parseFromString :: "js_string \<Rightarrow> xml_doc"
  newURL :: "js_string \<Rightarrow> url_obj option"
  newDate :: "js_string \<Rightarrow> int option"
  toLowerCase :: "js_string \<Rightarrow> js_string"

text \<open>
  An active source (an entry of \<^verbatim>\<open>getActiveSources()\<close>), the source summary stored in
  an article, and the article. \<open>art_publishedAt\<close> is the time value of the ISO string
  that \<^verbatim>\<open>parseDate\<close> stores: \<^verbatim>\<open>toISOString\<close> has millisecond precision, and
  \<^verbatim>\<open>new Date(a.publishedAt)\<close> in the sort reads the same time value back.
\<close>

record source =
  src_id :: js_string
  src_name :: js_string
  src_url :: js_string
  src_verified :: bool
  src_isCustom :: bool
  src_category :: js_string

record source_info =
  info_id :: js_string
  info_name :: js_string
  info_verified :: bool
  info_isCustom :: bool

record article =
  art_id :: js_string
  art_title :: js_string
  art_summary :: js_string
  art_url :: "js_string option"
  art_imageUrl :: "js_string option"
  art_publishedAt :: int
  art_source :: source_info
  art_category :: js_string
  art_loadedAt :: int

text \<open>
  The notifications of \<^verbatim>\<open>showNotification\<close> that the refresh path raises:
  \<^verbatim>\<open>`Please wait ${remainingTime} seconds before refreshing`\<close> (warning) and
  \<^verbatim>\<open>`Loaded ${n} articles from ${m} sources`\<close> (success).
\<close>

datatype notification = PleaseWait int | Loaded nat nat

text \<open>
  The application state that the refresh path reads and writes. \<open>fetchLog\<close> records the
  feed URL of every \<^verbatim>\<open>fetch\<close> call, in the order in which the calls are issued, and
  \<open>notifications\<close> every notification shown, in order. The presentation state (DOM, current category, progress bar) is not
  part of the model.
\<close>

record app_state =
  allArticles :: "article list"
  articles :: "article list"
  isLoading :: bool
  loadedSources :: nat
  totalSources :: nat
  lastFetchTime :: int
  fetchLog :: "js_string list"
  notifications :: "notification list"

definition maxArticles :: nat where
  "maxArticles = 100"

definition maxArticlesPerSource :: nat where
  "maxArticlesPerSource = 5"

definition minFetchInterval :: int where
  "minFetchInterval = 30000"

text \<open>The state the constructor sets up.\<close>

definition initialState :: app_state where
  "initialState =
     \<lparr>allArticles = [], articles = [], isLoading = False, loadedSources = 0,
      totalSources = 0, lastFetchTime = 0, fetchLog = [], notifications = []\<rparr>"

section \<open>Article identity\<close>

text \<open>
  \<^verbatim>\<open>
  generateArticleId(title, url) {
    const combined = (title + url).toLowerCase();
    let hash = 0;
    for (let i = 0; i < combined.length; i++) {
      const char = combined.charCodeAt(i);
      hash = ((hash << 5) - hash) + char;
      hash = hash & hash;
    }
    return Math.abs(hash).toString(36);
  }
  \<close>
  The loop over the indices of \<^verbatim>\<open>combined\<close> is the recursion over its characters.
\<close>

fun hashLoop :: "int \<Rightarrow> js_string \<Rightarrow> int" where
  "hashLoop hash [] = hash"
| "hashLoop hash (c # cs) =
     (let char = int c;
          hash1 = (js_shl hash 5 - hash) + char;
          hash2 = js_and hash1 hash1
      in hashLoop hash2 cs)"

definition generateArticleId :: "platform \<Rightarrow> js_string \<Rightarrow> js_string \<Rightarrow> js_string" where
  "generateArticleId P title url =
     (let combined = toLowerCase P (title @ url);
          hash = hashLoop 0 combined
      in toString36 \<bar>hash\<bar>)"

text \<open>
  The hash as the specification words it: one 32-bit register, updated per character by
  \<open>hash := (hash << 5) - hash + charCode\<close> with wrap-around.
\<close>

definition hash32_step :: "32 word \<Rightarrow> code_unit \<Rightarrow> 32 word" where
  "hash32_step h c = push_bit 5 h - h + of_nat c"

definition hash32 :: "js_string \<Rightarrow> 32 word" where
  "hash32 s = foldl hash32_step 0 s"

section \<open>Feed parser\<close>

text \<open>
  \<^verbatim>\<open>
  getElementText(parent, tagName) {
    const element = parent.querySelector(tagName);
    return element ? element.textContent.trim() : '';
  }
  \<close>
  applied to the text content the item record holds for the tag.
\<close>

definition getElementText :: "js_string option \<Rightarrow> js_string" where
  "getElementText element = (case element of Some textContent \<Rightarrow> trim textContent | None \<Rightarrow> [])"

text \<open>
  \<^verbatim>\<open>
  sanitizeText(text) {
    if (!text) return '';
    return text.replace(/<[^>]*>/g, '').replace(/&[^;]+;/g, ' ').replace(/\s+/g, ' ').trim();
  }
  \<close>
\<close>

definition sanitizeText :: "js_string \<Rightarrow> js_string" where
  "sanitizeText text =
     (if text = [] then [] else trim (collapseSpaces (stripEntities (stripTags text))))"

text \<open>
  \<^verbatim>\<open>
  sanitizeUrl(url) {
    try {
      const urlObj = new URL(url);
      return urlObj.protocol === 'https:' || urlObj.protocol === 'http:'
        ? urlObj.toString() : null;
    } catch { return null; }
  }
  \<close>
\<close>

definition sanitizeUrl :: "platform \<Rightarrow> js_string \<Rightarrow> js_string option" where
  "sanitizeUrl P url =
     (case newURL P url of
        None \<Rightarrow> None
      | Some urlObj \<Rightarrow>
          if protocol urlObj = js ''https:'' \<or> protocol urlObj = js ''http:''
          then Some (href urlObj) else None)"

text \<open>
  \<^verbatim>\<open>
  isValidImageUrl(url) {
    try {
      const urlObj = new URL(url);
      return urlObj.protocol === 'https:' && /\.(jpg|jpeg|png|gif|webp)$/i.test(urlObj.pathname);
    } catch { return false; }
  }
  \<close>
\<close>

definition hasImageExtension :: "js_string \<Rightarrow> bool" where
  "hasImageExtension path =
     (\<exists>ext \<in> set [''.jpg'', ''.jpeg'', ''.png'', ''.gif'', ''.webp''].
        suffix (js ext) (map asciiLower path))"

definition isValidImageUrl :: "platform \<Rightarrow> js_string \<Rightarrow> bool" where
  "isValidImageUrl P url =
     (case newURL P url of
        None \<Rightarrow> False
      | Some urlObj \<Rightarrow> protocol urlObj = js ''https:'' \<and> hasImageExtension (pathname urlObj))"

text \<open>
  \<^verbatim>\<open>extractImageUrl(item, description)\<close>: the \<^verbatim>\<open>url\<close> of a \<^verbatim>\<open>content\<close> or
  \<^verbatim>\<open>thumbnail\<close> element, then that of an \<^verbatim>\<open>enclosure\<close> whose type starts with
  \<^verbatim>\<open>image/\<close>, then the first \<^verbatim>\<open>img\<close> of the description; each only when it is a
  valid image URL; otherwise \<^verbatim>\<open>null\<close>.
\<close>

definition extractImageUrl :: "platform \<Rightarrow> item \<Rightarrow> js_string \<Rightarrow> js_string option" where
  "extractImageUrl P it description =
     (let fromMedia =
            (case el_media it of
               Some (Some url) \<Rightarrow> if url \<noteq> [] \<and> isValidImageUrl P url then Some url else None
             | _ \<Rightarrow> None);
          fromEnclosure =
            (case el_enclosure it of
               Some (Some ty, Some url) \<Rightarrow>
                 if prefix (js ''image/'') ty \<and> url \<noteq> [] \<and> isValidImageUrl P url then Some url else None
             | _ \<Rightarrow> None);
          fromDescription =
            (if description \<noteq> [] then
               (case imgSrcMatch description of
                  Some m \<Rightarrow> if isValidImageUrl P m then Some m else None
                | None \<Rightarrow> None)
             else None)
      in case fromMedia of
           Some url \<Rightarrow> Some url
         | None \<Rightarrow> (case fromEnclosure of Some url \<Rightarrow> Some url | None \<Rightarrow> fromDescription))"

text \<open>
  \<^verbatim>\<open>
  parseDate(dateString) {
    if (!dateString) return new Date().toISOString();
    try { const date = new Date(dateString); return date.toISOString(); }
    catch { return new Date().toISOString(); }
  }
  \<close>
  \<^verbatim>\<open>toISOString\<close> throws on an invalid date; \<open>now\<close> is the clock.
\<close>

definition parseDate :: "platform \<Rightarrow> int \<Rightarrow> js_string \<Rightarrow> int" where
  "parseDate P now dateString =
     (if dateString = [] then now
      else case newDate P dateString of Some t \<Rightarrow> t | None \<Rightarrow> now)"

text \<open>
  \<^verbatim>\<open>
  generateSummary(title) {
    return title.length > 100 ? title.substring(0, 100) + '...' : title;
  }
  \<close>
\<close>

definition generateSummary :: "js_string \<Rightarrow> js_string" where
  "generateSummary t = (if length t > 100 then take 100 t @ js ''...'' else t)"

text \<open>
  \<^verbatim>\<open>
  extractArticleFromItem(item, source) {
    try {
      const title = this.getElementText(item, 'title');
      const description = this.getElementText(item, 'description');
      const link = this.getElementText(item, 'link') || this.getElementText(item, 'guid');
      const pubDate = this.getElementText(item, 'pubDate');
      if (!title || !link) { return null; }
      const imageUrl = this.extractImageUrl(item, description);
      return { id: this.generateArticleId(title, link), title: this.sanitizeText(title),
        summary: this.sanitizeText(description) || this.generateSummary(title),
        url: this.sanitizeUrl(link), imageUrl: imageUrl, publishedAt: this.parseDate(pubDate),
        source: { id: source.id, name: source.name, verified: source.verified || false,
                  isCustom: source.isCustom || false },
        category: source.category, loadedAt: Date.now() };
    } catch (error) { return null; }
  }
  \<close>
  None of the calls in the \<^verbatim>\<open>try\<close> block throws (the two that could, \<^verbatim>\<open>new URL\<close>
  and \<^verbatim>\<open>toISOString\<close>, are caught where they are called), so the \<^verbatim>\<open>catch\<close> has
  no branch in the model.
\<close>

definition itemLink :: "item \<Rightarrow> js_string" where
  "itemLink it =
     (if getElementText (el_link it) \<noteq> [] then getElementText (el_link it)
      else getElementText (el_guid it))"

definition extractArticleFromItem :: "platform \<Rightarrow> int \<Rightarrow> item \<Rightarrow> source \<Rightarrow> article option" where
  "extractArticleFromItem P now it src =
     (let title = getElementText (el_title it);
          description = getElementText (el_description it);
          link = itemLink it;
          pubDate = getElementText (el_pubDate it)
      in if title = [] \<or> link = [] then None
         else Some
           \<lparr>art_id = generateArticleId P title link,
            art_title = sanitizeText title,
            art_summary =
              (if sanitizeText description \<noteq> [] then sanitizeText description
               else generateSummary title),
            art_url = sanitizeUrl P link,
            art_imageUrl = extractImageUrl P it description,
            art_publishedAt = parseDate P now pubDate,
            art_source =
              \<lparr>info_id = src_id src, info_name = src_name src,
               info_verified = src_verified src, info_isCustom = src_isCustom src\<rparr>,
            art_category = src_category src,
            art_loadedAt = now\<rparr>)"

text \<open>
  \<^verbatim>\<open>
  parseRSSFeed(xmlText, source) {
    try {
      const xmlDoc = new DOMParser().parseFromString(xmlText, 'text/xml');
      if (xmlDoc.querySelector('parsererror')) { throw new Error('XML parsing failed'); }
      const items = xmlDoc.querySelectorAll('item');
      const articles = [];
      items.forEach((item, index) => {
        if (index < 10) {
          const article = this.extractArticleFromItem(item, source);
          if (article) { articles.push(article); }
        }
      });
      return articles;
    } catch (error) { return []; }
  }
  \<close>
  \<open>forEachItem\<close> is the \<^verbatim>\<open>forEach\<close>: it visits every item, with its index, and carries
  the array \<^verbatim>\<open>articles\<close>.
\<close>

fun forEachItem :: "platform \<Rightarrow> int \<Rightarrow> source \<Rightarrow> item list \<Rightarrow> nat \<Rightarrow> article list \<Rightarrow> article list" where
  "forEachItem P now src [] index arts = arts"
| "forEachItem P now src (it # rest) index arts =
     forEachItem P now src rest (index + 1)
       (if index < 10 then
          (case extractArticleFromItem P now it src of
             Some a \<Rightarrow> arts @ [a]
           | None \<Rightarrow> arts)
        else arts)"

definition parseRSSFeed :: "platform \<Rightarrow> int \<Rightarrow> js_string \<Rightarrow> source \<Rightarrow> article list" where
  "parseRSSFeed P now xmlText src =
     (case parseFromString P xmlText of
        ParserError \<Rightarrow> []
      | Document items \<Rightarrow> forEachItem P now src items 0 [])"

section \<open>Aggregation\<close>

text \<open>
  \<^verbatim>\<open>
  deduplicateArticles(articles) {
    const seen = new Set();
    const unique = [];
    articles.forEach(article => {
      const key = article.title.toLowerCase().replace(/[^\w\s]/g, '').replace(/\s+/g, ' ')
        .trim().substring(0, 50);
      if (!seen.has(key)) { seen.add(key); unique.push(article); }
    });
    return unique;
  }
  \<close>
\<close>

definition dedupKey :: "platform \<Rightarrow> article \<Rightarrow> js_string" where
  "dedupKey P a =
     take 50 (trim (collapseSpaces (removeNonWordNonSpace (toLowerCase P (art_title a)))))"

fun dedupLoop ::
  "platform \<Rightarrow> js_string set \<Rightarrow> article list \<Rightarrow> article list \<Rightarrow> article list" where
  "dedupLoop P seen unique [] = unique"
| "dedupLoop P seen unique (a # rest) =
     (let key = dedupKey P a
      in if key \<notin> seen then dedupLoop P (insert key seen) (unique @ [a]) rest
         else dedupLoop P seen unique rest)"

definition deduplicateArticles :: "platform \<Rightarrow> article list \<Rightarrow> article list" where
  "deduplicateArticles P arts = dedupLoop P {} [] arts"

text \<open>
  \<^verbatim>\<open>Array.prototype.sort(compare)\<close>: ECMAScript requires the sort to be stable, and for a
  consistent comparator the result is the one stable sorted arrangement. Inserting the
  elements from the last to the first, each before the first element it does not come
  after, computes that arrangement.
\<close>

fun insertSorted :: "('a \<Rightarrow> 'a \<Rightarrow> int) \<Rightarrow> 'a \<Rightarrow> 'a list \<Rightarrow> 'a list" where
  "insertSorted compare x [] = [x]"
| "insertSorted compare x (y # ys) =
     (if compare x y \<le> 0 then x # y # ys else y # insertSorted compare x ys)"

definition js_sort :: "('a \<Rightarrow> 'a \<Rightarrow> int) \<Rightarrow> 'a list \<Rightarrow> 'a list" where
  "js_sort compare xs = foldr (insertSorted compare) xs []"

text \<open>The comparator \<^verbatim>\<open>(a, b) => new Date(b.publishedAt) - new Date(a.publishedAt)\<close>.\<close>

definition newestFirst :: "article \<Rightarrow> article \<Rightarrow> int" where
  "newestFirst a b = art_publishedAt b - art_publishedAt a"

text \<open>
  \<^verbatim>\<open>
  processAllArticles() {
    const uniqueArticles = this.deduplicateArticles(this.allArticles);
    uniqueArticles.sort((a, b) => new Date(b.publishedAt) - new Date(a.publishedAt));
    this.articles = uniqueArticles.slice(0, this.maxArticles);
  }
  \<close>
\<close>

definition processAllArticles :: "platform \<Rightarrow> app_state \<Rightarrow> app_state" where
  "processAllArticles P s =
     (let uniqueArticles = deduplicateArticles P (allArticles s);
          sorted = js_sort newestFirst uniqueArticles
      in s\<lparr>articles := take maxArticles sorted\<rparr>)"

section \<open>Fetch scheduler\<close>

text \<open>
  What one \<^verbatim>\<open>fetch\<close> through the relay comes to: the promise rejects (network error),
  or it resolves to a response with its \<^verbatim>\<open>ok\<close> flag, its status and its body
  (\<open>None\<close> when \<^verbatim>\<open>response.text()\<close> rejects).
\<close>

datatype fetch_outcome = NetworkError | HttpResponse bool nat "js_string option"

datatype error = FetchRejected | HttpError nat | BodyRejected

text \<open>How a promise settles.\<close>

datatype 'a settled = Fulfilled 'a | Rejected error

text \<open>
  \<^verbatim>\<open>
  async loadSingleSource(source) {
    try {
      const response = await fetch(`${this.corsProxy}${encodeURIComponent(source.url)}`, ...);
      if (!response.ok) { throw new Error(`HTTP ${response.status}: ${response.statusText}`); }
      const xmlText = await response.text();
      const articles = this.parseRSSFeed(xmlText, source);
      if (articles.length > 0) {
        const limitedArticles = articles.slice(0, this.maxArticlesPerSource);
        this.allArticles.push(...limitedArticles);
      }
      this.loadedSources++;
      return articles;
    } catch (error) {
      this.loadedSources++;
      return [];
    }
  }
  \<close>
  The call runs in two steps. \<open>loadSingleSource_fetch\<close> is the first: it issues the
  \<^verbatim>\<open>fetch\<close>, and the task suspends. The second runs when the response has
  arrived (or the fetch has failed): \<open>loadSingleSource_try\<close> is the rest of the
  \<^verbatim>\<open>try\<close> block, with the state it leaves and either the error thrown or the value
  returned, and \<open>loadSingleSource_resume\<close> adds the \<^verbatim>\<open>catch\<close> block. Everything
  after the last \<^verbatim>\<open>await\<close> and the whole \<^verbatim>\<open>catch\<close> block run without
  suspension, so a task changes the articles and the counter in one step, at the moment it
  settles; \<open>now\<close> is the clock at that moment. \<open>loadSingleSource\<close> is the whole call
  when nothing else runs in between.
\<close>

definition loadSingleSource_fetch :: "app_state \<Rightarrow> source \<Rightarrow> app_state" where
  "loadSingleSource_fetch s src = s\<lparr>fetchLog := fetchLog s @ [src_url src]\<rparr>"

definition loadSingleSource_try ::
  "platform \<Rightarrow> int \<Rightarrow> app_state \<Rightarrow> source \<Rightarrow> fetch_outcome \<Rightarrow> app_state \<times> (error + article list)" where
  "loadSingleSource_try P now s src outcome =
     (case outcome of
        NetworkError \<Rightarrow> (s, Inl FetchRejected)
      | HttpResponse ok status body \<Rightarrow>
          if \<not> ok then (s, Inl (HttpError status))
          else (case body of
                  None \<Rightarrow> (s, Inl BodyRejected)
                | Some xmlText \<Rightarrow>
                    (let arts = parseRSSFeed P now xmlText src;
                         s2 = (if length arts > 0
                               then s\<lparr>allArticles := allArticles s @ take maxArticlesPerSource arts\<rparr>
                               else s);
                         s3 = s2\<lparr>loadedSources := loadedSources s2 + 1\<rparr>
                     in (s3, Inr arts))))"

definition loadSingleSource_resume ::
  "platform \<Rightarrow> int \<Rightarrow> app_state \<Rightarrow> source \<Rightarrow> fetch_outcome \<Rightarrow> app_state \<times> article list settled" where
  "loadSingleSource_resume P now s src outcome =
     (case loadSingleSource_try P now s src outcome of
        (s', Inr arts) \<Rightarrow> (s', Fulfilled arts)
      | (s', Inl e) \<Rightarrow> (s'\<lparr>loadedSources := loadedSources s' + 1\<rparr>, Fulfilled []))"

definition loadSingleSource ::
  "platform \<Rightarrow> int \<Rightarrow> app_state \<Rightarrow> source \<Rightarrow> fetch_outcome \<Rightarrow> app_state \<times> article list settled" where
  "loadSingleSource P now s src outcome =
     loadSingleSource_resume P now (loadSingleSource_fetch s src) src outcome"

text \<open>
  A dispatched task: the source, what its fetch comes to, and the clock when it settles.
  The list of tasks is in the order of \<^verbatim>\<open>getActiveSources()\<close>. \<^verbatim>\<open>loadSourceWithDelay\<close>
  calls \<^verbatim>\<open>loadSingleSource\<close> for the task of index \<open>i\<close> after \<open>i * 200\<close> ms, so the
  fetches are issued in the order of the list. The tasks then settle in an order that the
  network decides: \<open>order\<close> lists the indices of the tasks in the order in which they
  settle (an index that is not one of a task stands for nothing). The issue of a fetch
  changes the log only and a settling task changes only the articles and the counter, so
  the state after all of them is the same however the two kinds of steps interleave: it is
  the state after all fetches, then all settlements. \<^verbatim>\<open>Promise.allSettled\<close> waits for
  every task and discards the results, rejected or not.
\<close>

type_synonym task = "source \<times> fetch_outcome \<times> int"

definition inSettleOrder :: "task list \<Rightarrow> nat list \<Rightarrow> task list" where
  "inSettleOrder tasks order =
     List.map_filter (\<lambda>i. if i < length tasks then Some (tasks ! i) else None) order"

fun settleAll :: "platform \<Rightarrow> app_state \<Rightarrow> task list \<Rightarrow> app_state" where
  "settleAll P s [] = s"
| "settleAll P s ((src, outcome, now) # tasks) =
     settleAll P (fst (loadSingleSource_resume P now s src outcome)) tasks"

text \<open>
  \<^verbatim>\<open>
  async startProgressiveLoading() {
    if (this.isLoading) return;
    this.isLoading = true;
    try {
      const activeSources = this.getActiveSources();
      this.totalSources = activeSources.length;
      if (this.totalSources === 0) { return; }
      this.allArticles = [];
      this.loadedSources = 0;
      const loadPromises = activeSources.map((source, index) =>
        this.loadSourceWithDelay(source, index * 200));
      await Promise.allSettled(loadPromises);
      this.processAllArticles();
      if (this.allArticles.length > 0) {
        this.showNotification(`Loaded ${this.allArticles.length} articles from ${this.totalSources} sources`, 'success');
      }
    } catch (error) { ... } finally { this.isLoading = false; }
  }
  \<close>
  The active sources are the sources of the tasks.
\<close>

definition startProgressiveLoading ::
  "platform \<Rightarrow> app_state \<Rightarrow> task list \<Rightarrow> nat list \<Rightarrow> app_state" where
  "startProgressiveLoading P s tasks order =
     (if isLoading s then s
      else
        (let s1 = s\<lparr>isLoading := True\<rparr>;
             s2 = s1\<lparr>totalSources := length tasks\<rparr>;
             s7 =
               (if totalSources s2 = 0 then s2
                else
                  (let s3 = s2\<lparr>allArticles := [], loadedSources := 0\<rparr>;
                       s4 = foldl loadSingleSource_fetch s3 (map fst tasks);
                       s5 = settleAll P s4 (inSettleOrder tasks order);
                       s6 = processAllArticles P s5
                   in if length (allArticles s6) > 0
                      then s6\<lparr>notifications :=
                             notifications s6 @ [Loaded (length (allArticles s6)) (totalSources s6)]\<rparr>
                      else s6))
         in s7\<lparr>isLoading := False\<rparr>))"

text \<open>
  \<^verbatim>\<open>
  async refreshNews() {
    const now = Date.now();
    if (now - this.lastFetchTime < this.minFetchInterval) {
      const remainingTime = Math.ceil((this.minFetchInterval - (now - this.lastFetchTime)) / 1000);
      this.showNotification(`Please wait ${remainingTime} seconds before refreshing`, 'warning');
      return;
    }
    this.lastFetchTime = now;
    try { await this.startProgressiveLoading(); } finally { ... }
  }
  \<close>
\<close>

definition refreshNews ::
  "platform \<Rightarrow> app_state \<Rightarrow> int \<Rightarrow> task list \<Rightarrow> nat list \<Rightarrow> app_state" where
  "refreshNews P s now tasks order =
     (if now - lastFetchTime s < minFetchInterval then
        (let remainingTime =
               \<lceil>real_of_int (minFetchInterval - (now - lastFetchTime s)) / 1000\<rceil>
         in s\<lparr>notifications := notifications s @ [PleaseWait remainingTime]\<rparr>)
      else startProgressiveLoading P (s\<lparr>lastFetchTime := now\<rparr>) tasks order)"

section \<open>The specification's words\<close>

text \<open>
  A source fails when its fetch rejects, its response is not OK, its body cannot be read
  or its document does not parse.
\<close>

definition sourceFails :: "platform \<Rightarrow> fetch_outcome \<Rightarrow> bool" where
  "sourceFails P outcome =
     (case outcome of
        NetworkError \<Rightarrow> True
      | HttpResponse ok status body \<Rightarrow>
          \<not> ok \<or> (case body of None \<Rightarrow> True | Some xmlText \<Rightarrow> parseFromString P xmlText = ParserError))"

text \<open>
  What a source contributes to the aggregate: nothing when it fails, otherwise the first
  \<open>maxArticlesPerSource\<close> articles parsed from its document.
\<close>

definition contribution :: "platform \<Rightarrow> task \<Rightarrow> article list" where
  "contribution P t =
     (case t of (src, outcome, now) \<Rightarrow>
        (case outcome of
           HttpResponse True status (Some xmlText) \<Rightarrow>
             take maxArticlesPerSource (parseRSSFeed P now xmlText src)
         | _ \<Rightarrow> []))"

text \<open>Every task settles, and settles once.\<close>

definition settlesEachOnce :: "task list \<Rightarrow> nat list \<Rightarrow> bool" where
  "settlesEachOnce tasks order = (distinct order \<and> set order = {0..<length tasks})"

text \<open>
  Reading a base-36 numeral: the value of a digit \<^verbatim>\<open>0-9a-z\<close>, and the number a
  string of digits denotes, most significant digit first.
\<close>

definition isDigit36 :: "code_unit \<Rightarrow> bool" where
  "isDigit36 c = ((48 \<le> c \<and> c \<le> 57) \<or> (97 \<le> c \<and> c \<le> 122))"

definition digitValue36 :: "code_unit \<Rightarrow> int" where
  "digitValue36 c = (if c \<le> 57 then int c - 48 else int c - 87)"

definition fromBase36 :: "js_string \<Rightarrow> int" where
  "fromBase36 s = foldl (\<lambda>acc c. 36 * acc + digitValue36 c) 0 s"

section \<open>A sample refresh\<close>

text \<open>
  Concrete inputs on which the definitions above are evaluated: a stand-in for the
  browser that knows two feed documents and one date string, tells the URL schemes by
  their prefix and lowers the capital letters of ASCII and Latin-1; a feed of twelve
  items, the second and the fourth without link or guid; a feed of two items whose titles
  differ in a final exclamation mark only; and some sources, of which one delivers a feed.
\<close>

definition sampleItem :: "string \<Rightarrow> string option \<Rightarrow> item" where
  "sampleItem t l =
     \<lparr>el_title = Some (js t), el_description = None, el_link = map_option js l,
      el_guid = None, el_pubDate = Some (js ''Tue, 03 Nov 2026 10:00:00 GMT''),
      el_media = None, el_enclosure = None\<rparr>"

definition sampleItems :: "item list" where
  "sampleItems =
     [sampleItem ''n01'' (Some ''https://b.example/01''),
      sampleItem ''n02'' None,
      sampleItem ''n03'' (Some ''ftp://b.example/03''),
      sampleItem ''n04'' None,
      sampleItem ''n05'' (Some ''no url at all''),
      sampleItem ''n06'' (Some ''http://b.example/06''),
      sampleItem ''n07'' (Some ''https://b.example/07''),
      sampleItem ''n08'' (Some ''https://b.example/08''),
      sampleItem ''n09'' (Some ''https://b.example/09''),
      sampleItem ''n10'' (Some ''https://b.example/10''),
      sampleItem ''n11'' (Some ''https://b.example/11''),
      sampleItem ''n12'' (Some ''https://b.example/12'')]"

definition stormItems :: "item list" where
  "stormItems =
     [sampleItem ''Storm hits coast'' (Some ''https://b.example/storm-1''),
      sampleItem ''Storm hits coast!'' (Some ''https://b.example/storm-2'')]"

definition sampleLower :: "js_string \<Rightarrow> js_string" where
  "sampleLower s =
     map (\<lambda>c. if (65 \<le> c \<and> c \<le> 90) \<or> (192 \<le> c \<and> c \<le> 222 \<and> c \<noteq> 215) then c + 32 else c) s"

definition samplePlatform :: platform where
  "samplePlatform =
     \<lparr>parseFromString =
        (\<lambda>xmlText. if xmlText = js ''<rss>twelve items</rss>'' then Document sampleItems
                   else if xmlText = js ''<rss>storm twice</rss>'' then Document stormItems
                   else ParserError),
      newURL =
        (\<lambda>url. if prefix (js ''https://'') url
                 then Some \<lparr>protocol = js ''https:'', pathname = js ''/'', href = url\<rparr>
               else if prefix (js ''http://'') url
                 then Some \<lparr>protocol = js ''http:'', pathname = js ''/'', href = url\<rparr>
               else if prefix (js ''ftp://'') url
                 then Some \<lparr>protocol = js ''ftp:'', pathname = js ''/'', href = url\<rparr>
               else None),
      newDate =
        (\<lambda>dateString. if dateString = js ''Tue, 03 Nov 2026 10:00:00 GMT''
                      then Some 1793700000000 else None),
      toLowerCase = sampleLower\<rparr>"

definition sampleSource :: "string \<Rightarrow> source" where
  "sampleSource name =
     \<lparr>src_id = js name, src_name = js name, src_url = js (''https://'' @ name @ ''.example/rss''),
      src_verified = True, src_isCustom = False, src_category = js ''world''\<rparr>"

text \<open>
  Four tasks in the order of dispatch; the one that delivers the feed is the last to be
  dispatched and the first to settle.
\<close>

definition sampleTasks :: "task list" where
  "sampleTasks =
     [(sampleSource ''a'', NetworkError, 1793700001000),
      (sampleSource ''c'', HttpResponse False 503 None, 1793700002000),
      (sampleSource ''d'', HttpResponse True 200 (Some (js ''<rss><item></rss>'')), 1793700003000),
      (sampleSource ''b'', HttpResponse True 200 (Some (js ''<rss>twelve items</rss>'')),
         1793700000900)]"

definition sampleOrder :: "nat list" where
  "sampleOrder = [3, 0, 2, 1]"

text \<open>Two tasks: the first fails, the second delivers the feed with the two storm items.\<close>

definition stormTasks :: "task list" where
  "stormTasks =
     [(sampleSource ''a'', NetworkError, 1793700001000),
      (sampleSource ''b'', HttpResponse True 200 (Some (js ''<rss>storm twice</rss>'')),
         1793700002000)]"

definition sampleArticle :: "string \<Rightarrow> int \<Rightarrow> article" where
  "sampleArticle t published =
     \<lparr>art_id = generateArticleId samplePlatform (js t) [], art_title = js t,
      art_summary = js t, art_url = None, art_imageUrl = None, art_publishedAt = published,
      art_source =
        \<lparr>info_id = js ''a'', info_name = js ''a'', info_verified = True, info_isCustom = False\<rparr>,
      art_category = js ''world'', art_loadedAt = published\<rparr>"

definition sampleArticles :: "article list" where
  "sampleArticles =
     [sampleArticle ''Storm hits coast'' 100,
      sampleArticle ''Markets rally'' 300,
      sampleArticle '' Storm   hits coast! '' 200,
      sampleArticle ''Election day'' 300]"

section \<open>Properties of the string operations\<close>

lemma collapseSpaces_pairs:
  "map (\<lambda>c. if isSpace c then cu CHR '' '' else c)
     (map snd (filter (\<lambda>(p, c). \<not> (isSpace p \<and> isSpace c)) (zip (p # s) s))) =
   (if isSpace p then collapseSpaces (dropWhile isSpace s) else collapseSpaces s)"
proof (induction s arbitrary: p)
  case Nil
  show ?case by simp
next
  case (Cons c cs)
  show ?case
    using Cons.IH [of c] by simp
qed

lemma collapseSpaces_chars:
  "c \<in> set (collapseSpaces s) \<Longrightarrow> (c \<in> set s \<and> \<not> isSpace c) \<or> c = cu CHR '' ''"
proof (induction s rule: collapseSpaces.induct)
  case 1
  then show ?case by simp
next
  case (2 d ds)
  then show ?case
    by (auto split: if_splits dest: set_dropWhileD)
qed

lemma collapseSpaces_hd:
  "s \<noteq> [] \<Longrightarrow> \<not> isSpace (hd s) \<Longrightarrow> collapseSpaces s \<noteq> [] \<and> hd (collapseSpaces s) = hd s"
  by (cases s) auto

lemma collapseSpaces_single:
  "successively (\<lambda>x y. \<not> (isSpace x \<and> isSpace y)) (collapseSpaces s)"
proof (induction s rule: collapseSpaces.induct)
  case 1
  show ?case by simp
next
  case (2 c cs)
  show ?case
  proof (cases "isSpace c")
    case True
    let ?d = "dropWhile isSpace cs"
    have h: "collapseSpaces ?d = [] \<or> \<not> isSpace (hd (collapseSpaces ?d))"
    proof (cases "?d = []")
      case True
      then have "collapseSpaces ?d = []"
        by (simp only: collapseSpaces.simps)
      then show ?thesis ..
    next
      case False
      then have "\<not> isSpace (hd ?d)"
        using hd_dropWhile [of isSpace cs] by blast
      with False show ?thesis
        using collapseSpaces_hd [of ?d] by simp
    qed
    have "successively (\<lambda>x y. \<not> (isSpace x \<and> isSpace y)) (collapseSpaces ?d)"
      using True "2.IH"(1) by simp
    with h have "successively (\<lambda>x y. \<not> (isSpace x \<and> isSpace y)) (cu CHR '' '' # collapseSpaces ?d)"
      by (auto simp: successively_Cons)
    with True show ?thesis by simp
  next
    case False
    then have "successively (\<lambda>x y. \<not> (isSpace x \<and> isSpace y)) (collapseSpaces cs)"
      using "2.IH"(2) by simp
    with False have "successively (\<lambda>x y. \<not> (isSpace x \<and> isSpace y)) (c # collapseSpaces cs)"
      by (auto simp: successively_Cons)
    with False show ?thesis by simp
  qed
qed

lemma trim_ends: "trim s = [] \<or> (\<not> isSpace (hd (trim s)) \<and> \<not> isSpace (last (trim s)))"
proof (cases "trim s = []")
  case True
  then show ?thesis by simp
next
  case False
  let ?d = "dropWhile isSpace s"
  let ?e = "dropWhile isSpace (rev ?d)"
  have e: "?e \<noteq> []"
    using False by (simp add: trim_def)
  then have l: "\<not> isSpace (hd ?e)"
    using hd_dropWhile [of isSpace "rev ?d"] by blast
  have "?d = [] \<Longrightarrow> ?e = []"
    by (simp only: rev.simps dropWhile.simps)
  with e have d: "?d \<noteq> []"
    by blast
  then have f: "\<not> isSpace (hd ?d)"
    using hd_dropWhile [of isSpace s] by blast
  have "rev ?d = takeWhile isSpace (rev ?d) @ ?e"
    by simp
  then have "last (rev ?d) = last ?e"
    using e last_appendR [of ?e "takeWhile isSpace (rev ?d)"] by simp
  then have "last ?e = hd ?d"
    using d by (simp add: last_rev)
  with f have "\<not> isSpace (last ?e)"
    by simp
  with l e show ?thesis
    by (simp add: trim_def hd_rev last_rev)
qed

lemma trim_sublist:
  "\<exists>l r. s = l @ trim s @ r \<and> (\<forall>c \<in> set l. isSpace c) \<and> (\<forall>c \<in> set r. isSpace c)"
proof -
  let ?d = "dropWhile isSpace s"
  let ?t = "takeWhile isSpace (rev ?d)"
  have "rev (?t @ dropWhile isSpace (rev ?d)) = ?d"
    by (simp only: takeWhile_dropWhile_id rev_rev_ident)
  then have 2: "?d = trim s @ rev ?t"
    by (simp only: rev_append trim_def)
  have "s = takeWhile isSpace s @ ?d"
    by simp
  with 2 have "s = takeWhile isSpace s @ trim s @ rev ?t"
    by simp
  moreover have "\<forall>c \<in> set (takeWhile isSpace s). isSpace c"
    by (auto dest: set_takeWhileD)
  moreover have "\<forall>c \<in> set (rev ?t). isSpace c"
    by (auto dest: set_takeWhileD)
  ultimately show ?thesis by blast
qed

section \<open>Properties of the article id\<close>

lemma ToInt32_sint: "ToInt32 x = sint (word_of_int x :: 32 word)"
  by (simp add: ToInt32_def int_word_sint)

lemma js_and_same: "js_and x x = ToInt32 x"
  by (simp add: js_and_def ToInt32_sint)

lemma hash_step_refines:
  "ToInt32 ((js_shl (sint w) 5 - sint w) + int c) = sint (hash32_step w c)"
  by (simp add: ToInt32_sint js_shl_def hash32_step_def push_bit_eq_mult)

lemma hashLoop_refines: "hashLoop (sint w) cs = sint (foldl hash32_step w cs)"
proof (induction cs arbitrary: w)
  case Nil
  show ?case by simp
next
  case (Cons c cs)
  show ?case
    by (simp add: Let_def js_and_same hash_step_refines Cons.IH)
qed

lemma fromBase36_snoc: "fromBase36 (xs @ [c]) = 36 * fromBase36 xs + digitValue36 c"
  by (simp add: fromBase36_def)

lemma digitValue36_digit36: "d < 36 \<Longrightarrow> digitValue36 (digit36 d) = int d"
  by (auto simp: digitValue36_def digit36_def)

lemma isDigit36_digit36: "d < 36 \<Longrightarrow> isDigit36 (digit36 d)"
  by (auto simp: isDigit36_def digit36_def)

lemma fromBase36_toString36: "0 \<le> n \<Longrightarrow> fromBase36 (toString36 n) = n"
proof (induction n rule: toString36.induct)
  case (1 n)
  show ?case
  proof (cases "n < 36")
    case True
    with "1.prems" have "digitValue36 (digit36 (nat n)) = n"
      by (simp add: digitValue36_digit36)
    with True show ?thesis
      by (simp add: toString36.simps [of n] fromBase36_def)
  next
    case False
    then have "fromBase36 (toString36 (n div 36)) = n div 36"
      using "1.IH" by simp
    moreover have "digitValue36 (digit36 (nat (n mod 36))) = n mod 36"
      by (simp add: digitValue36_digit36)
    ultimately show ?thesis
      using False by (simp add: toString36.simps [of n] fromBase36_snoc)
  qed
qed

lemma toString36_digits: "c \<in> set (toString36 n) \<Longrightarrow> isDigit36 c"
proof (induction n rule: toString36.induct)
  case (1 n)
  show ?case
  proof (cases "n < 36")
    case True
    then have "nat n < 36" by simp
    with True "1.prems" show ?thesis
      by (simp add: toString36.simps [of n] isDigit36_digit36)
  next
    case False
    have "nat (n mod 36) < 36" by simp
    then have "isDigit36 (digit36 (nat (n mod 36)))"
      by (rule isDigit36_digit36)
    with False "1.prems" "1.IH" show ?thesis
      by (auto simp: toString36.simps [of n])
  qed
qed

lemma toString36_nonempty: "toString36 n \<noteq> []"
  by (simp add: toString36.simps [of n])

lemma toString36_canonical: "0 < n \<Longrightarrow> hd (toString36 n) \<noteq> cu CHR ''0''"
proof (induction n rule: toString36.induct)
  case (1 n)
  show ?case
  proof (cases "n < 36")
    case True
    with "1.prems" show ?thesis
      by (auto simp: toString36.simps [of n] digit36_def)
  next
    case False
    then have "hd (toString36 (n div 36)) \<noteq> cu CHR ''0''"
      using "1.IH" by simp
    with False show ?thesis
      by (simp add: toString36.simps [of n] toString36_nonempty)
  qed
qed

lemma toString36_length_one: "0 \<le> n \<Longrightarrow> n < 36 \<longleftrightarrow> length (toString36 n) = 1"
proof (cases "n < 36")
  case True
  then show ?thesis by (simp add: toString36.simps [of n])
next
  case False
  have "length (toString36 (n div 36)) \<noteq> 0"
    by (simp add: toString36_nonempty)
  with False show ?thesis
    by (simp add: toString36.simps [of n])
qed

lemma hash32_snoc: "hash32 (s @ [c]) = push_bit 5 (hash32 s) - hash32 s + of_nat c"
  by (simp add: hash32_def hash32_step_def)

section \<open>Properties of the aggregation\<close>

lemma successively_trim: "successively R s \<Longrightarrow> successively R (trim s)"
proof -
  assume a: "successively R s"
  obtain l r where "s = l @ trim s @ r"
    using trim_sublist by blast
  then have "successively R (l @ trim s @ r)"
    using a by simp
  then show ?thesis
    by (simp add: successively_append_iff)
qed

lemma successively_take: "successively R s \<Longrightarrow> successively R (take n s)"
proof -
  assume "successively R s"
  then have "successively R (take n s @ drop n s)"
    by simp
  then show ?thesis
    by (simp only: successively_append_iff)
qed

lemma trim_subset: "set (trim s) \<subseteq> set s"
proof -
  obtain l r where "s = l @ trim s @ r"
    using trim_sublist by blast
  then have "set s = set l \<union> set (trim s) \<union> set r"
    by (metis set_append sup_assoc)
  then show ?thesis by blast
qed

lemma dedupKey_pairs:
  "dedupKey P a =
     take 50 (rev (dropWhile isSpace (rev (dropWhile isSpace
       (map (\<lambda>c. if isSpace c then cu CHR '' '' else c)
         (map snd (filter (\<lambda>(p, c). \<not> (isSpace p \<and> isSpace c))
           (zip (0 # filter (\<lambda>c. isWordChar c \<or> isSpace c) (toLowerCase P (art_title a)))
                (filter (\<lambda>c. isWordChar c \<or> isSpace c) (toLowerCase P (art_title a)))))))))))"
proof -
  have "\<not> isSpace 0"
    by (simp add: isSpace_def)
  then show ?thesis
    by (simp only: dedupKey_def trim_def removeNonWordNonSpace_def collapseSpaces_pairs if_False)
qed

lemma dedupKey_chars: "c \<in> set (dedupKey P a) \<Longrightarrow> isWordChar c \<or> c = cu CHR '' ''"
proof -
  let ?f = "removeNonWordNonSpace (toLowerCase P (art_title a))"
  assume "c \<in> set (dedupKey P a)"
  then have "c \<in> set (trim (collapseSpaces ?f))"
    by (auto simp: dedupKey_def dest: in_set_takeD)
  then have "c \<in> set (collapseSpaces ?f)"
    using trim_subset by blast
  then have "(c \<in> set ?f \<and> \<not> isSpace c) \<or> c = cu CHR '' ''"
    by (rule collapseSpaces_chars)
  then show ?thesis
    by (auto simp: removeNonWordNonSpace_def)
qed

lemma dedupKey_single:
  "successively (\<lambda>x y. \<not> (isSpace x \<and> isSpace y)) (dedupKey P a)"
  unfolding dedupKey_def
  by (intro successively_take successively_trim collapseSpaces_single)

lemma dedupKey_hd: "dedupKey P a = [] \<or> \<not> isSpace (hd (dedupKey P a))"
proof -
  let ?n = "trim (collapseSpaces (removeNonWordNonSpace (toLowerCase P (art_title a))))"
  have "?n = [] \<or> \<not> isSpace (hd ?n)"
    using trim_ends [of "collapseSpaces (removeNonWordNonSpace (toLowerCase P (art_title a)))"]
    by blast
  then show ?thesis
    by (auto simp: dedupKey_def)
qed

lemma dedupKey_last:
  "length (dedupKey P a) < 50 \<Longrightarrow> dedupKey P a = [] \<or> \<not> isSpace (last (dedupKey P a))"
proof -
  let ?n = "trim (collapseSpaces (removeNonWordNonSpace (toLowerCase P (art_title a))))"
  assume "length (dedupKey P a) < 50"
  then have "dedupKey P a = ?n"
    by (simp add: dedupKey_def min_def split: if_splits)
  then show ?thesis
    using trim_ends [of "collapseSpaces (removeNonWordNonSpace (toLowerCase P (art_title a)))"]
    by auto
qed

lemma insertSorted_newestFirst:
  "insertSorted newestFirst x ys = insort_key (\<lambda>a. - art_publishedAt a) x ys"
  by (induction ys) (simp_all add: newestFirst_def)

lemma js_sort_newestFirst:
  "js_sort newestFirst xs = sort_key (\<lambda>a. - art_publishedAt a) xs"
proof -
  have "insertSorted newestFirst = insort_key (\<lambda>a. - art_publishedAt a)"
    by (intro ext) (rule insertSorted_newestFirst)
  then show ?thesis
    by (simp add: js_sort_def sort_key_def)
qed

lemma dedupLoop_acc: "dedupLoop P seen unique xs = unique @ dedupLoop P seen [] xs"
proof (induction xs arbitrary: seen unique)
  case Nil
  show ?case by simp
next
  case (Cons a rest)
  show ?case
  proof (cases "dedupKey P a \<in> seen")
    case True
    then show ?thesis using Cons.IH [of seen unique] by simp
  next
    case False
    then show ?thesis
      using Cons.IH [of "insert (dedupKey P a) seen" "unique @ [a]"]
            Cons.IH [of "insert (dedupKey P a) seen" "[a]"]
      by simp
  qed
qed

lemma dedupLoop_Cons:
  "dedupLoop P seen [] (a # rest) =
     (if dedupKey P a \<in> seen then dedupLoop P seen [] rest
      else a # dedupLoop P (insert (dedupKey P a) seen) [] rest)"
  using dedupLoop_acc [of P "insert (dedupKey P a) seen" "[a]" rest] by simp

lemma dedupLoop_keys_fresh:
  "dedupKey P ` set (dedupLoop P seen [] xs) \<inter> seen = {}"
proof (induction xs arbitrary: seen)
  case Nil
  show ?case by simp
next
  case (Cons a rest)
  show ?case
    using Cons.IH [of seen] Cons.IH [of "insert (dedupKey P a) seen"]
    by (auto simp: dedupLoop_Cons simp del: dedupLoop.simps)
qed

lemma dedupLoop_distinct:
  "distinct (map (dedupKey P) (dedupLoop P seen [] xs))"
proof (induction xs arbitrary: seen)
  case Nil
  show ?case by simp
next
  case (Cons a rest)
  show ?case
    using Cons.IH [of seen] Cons.IH [of "insert (dedupKey P a) seen"]
          dedupLoop_keys_fresh [of P "insert (dedupKey P a) seen" rest]
    by (auto simp: dedupLoop_Cons simp del: dedupLoop.simps)
qed

lemma dedupLoop_subseq: "subseq (dedupLoop P seen [] xs) xs"
proof (induction xs arbitrary: seen)
  case Nil
  show ?case by simp
next
  case (Cons a rest)
  show ?case
    using Cons.IH [of seen] Cons.IH [of "insert (dedupKey P a) seen"]
    by (auto simp: dedupLoop_Cons simp del: dedupLoop.simps)
qed

lemma dedupLoop_filter:
  "filter (\<lambda>b. dedupKey P b = k) (dedupLoop P seen [] xs) =
     (if k \<in> seen then []
      else case find (\<lambda>b. dedupKey P b = k) xs of None \<Rightarrow> [] | Some a \<Rightarrow> [a])"
proof (induction xs arbitrary: seen)
  case Nil
  show ?case by simp
next
  case (Cons a rest)
  show ?case
    using Cons.IH [of seen] Cons.IH [of "insert (dedupKey P a) seen"]
    by (auto simp: dedupLoop_Cons simp del: dedupLoop.simps)
qed

lemma dedupLoop_id:
  "distinct (map (dedupKey P) xs) \<Longrightarrow> dedupKey P ` set xs \<inter> seen = {} \<Longrightarrow> dedupLoop P seen [] xs = xs"
proof (induction xs arbitrary: seen)
  case Nil
  show ?case by simp
next
  case (Cons a rest)
  have "dedupLoop P (insert (dedupKey P a) seen) [] rest = rest"
    using Cons.prems by (intro Cons.IH) auto
  then show ?case
    using Cons.prems by (auto simp: dedupLoop_Cons simp del: dedupLoop.simps)
qed

lemma processAllArticles_articles:
  "articles (processAllArticles P s) =
     take maxArticles (sort_key (\<lambda>a. - art_publishedAt a) (deduplicateArticles P (allArticles s)))"
  by (simp add: processAllArticles_def js_sort_newestFirst)

lemma filter_take_prefix: "prefix (filter Q (take n xs)) (filter Q xs)"
proof -
  have "filter Q xs = filter Q (take n xs) @ filter Q (drop n xs)"
    by (simp flip: filter_append)
  then show ?thesis by (simp add: prefix_def)
qed

lemma processed_sorted:
  "sorted (map (\<lambda>a. - art_publishedAt a) (articles (processAllArticles P s)))"
  by (simp add: processAllArticles_articles flip: take_map)

lemma processed_distinct_keys:
  "distinct (map (dedupKey P) (articles (processAllArticles P s)))"
proof -
  let ?d = "deduplicateArticles P (allArticles s)"
  have "distinct (map (dedupKey P) ?d)"
    by (simp add: deduplicateArticles_def dedupLoop_distinct)
  then have "distinct (map (dedupKey P) (sort_key (\<lambda>a. - art_publishedAt a) ?d))"
    by (simp add: distinct_map)
  then have "distinct (take maxArticles (map (dedupKey P) (sort_key (\<lambda>a. - art_publishedAt a) ?d)))"
    by (rule distinct_take)
  then show ?thesis
    by (simp add: processAllArticles_articles take_map)
qed

section \<open>Properties of the feed parser and of the scheduler\<close>

lemma forEachItem_take:
  "forEachItem P now src items index arts =
     arts @ List.map_filter (\<lambda>it. extractArticleFromItem P now it src) (take (10 - index) items)"
proof (induction items arbitrary: index arts)
  case Nil
  show ?case by simp
next
  case (Cons it rest)
  show ?case
  proof (cases "index < 10")
    case True
    then obtain k where k: "10 - index = Suc k" and k': "9 - index = k"
      by (cases "10 - index") auto
    show ?thesis
      using True by (simp add: Cons.IH k k' split: option.split)
  next
    case False
    then show ?thesis by (simp add: Cons.IH)
  qed
qed

lemma parseRSSFeed_Document:
  "parseFromString P xmlText = Document items \<Longrightarrow>
   parseRSSFeed P now xmlText src =
     List.map_filter (\<lambda>it. extractArticleFromItem P now it src) (take 10 items)"
  by (simp add: parseRSSFeed_def forEachItem_take)

lemma parseRSSFeed_ParserError:
  "parseFromString P xmlText = ParserError \<Longrightarrow> parseRSSFeed P now xmlText src = []"
  by (simp add: parseRSSFeed_def)

lemma sourceFails_contribution:
  "sourceFails P outcome \<Longrightarrow> contribution P (src, outcome, now) = []"
  by (auto simp: sourceFails_def contribution_def parseRSSFeed_ParserError
      split: fetch_outcome.splits option.splits bool.splits)

lemma loadSingleSource_resume_state:
  "fst (loadSingleSource_resume P now s src outcome) =
     s\<lparr>allArticles := allArticles s @ contribution P (src, outcome, now),
       loadedSources := loadedSources s + 1\<rparr>"
  by (cases outcome)
     (auto simp: loadSingleSource_resume_def loadSingleSource_try_def contribution_def Let_def
       split: option.splits bool.splits)

lemma loadSingleSource_resume_fulfilled:
  "\<exists>arts. snd (loadSingleSource_resume P now s src outcome) = Fulfilled arts"
  by (cases outcome)
     (auto simp: loadSingleSource_resume_def loadSingleSource_try_def Let_def split: option.splits)

lemma loadSingleSource_resume_fails:
  "sourceFails P outcome \<Longrightarrow> snd (loadSingleSource_resume P now s src outcome) = Fulfilled []"
  by (cases outcome)
     (auto simp: loadSingleSource_resume_def loadSingleSource_try_def Let_def sourceFails_def
       parseRSSFeed_ParserError split: option.splits)

lemma loadSingleSource_state:
  "fst (loadSingleSource P now s src outcome) =
     s\<lparr>allArticles := allArticles s @ contribution P (src, outcome, now),
       loadedSources := loadedSources s + 1,
       fetchLog := fetchLog s @ [src_url src]\<rparr>"
  by (simp add: loadSingleSource_def loadSingleSource_resume_state loadSingleSource_fetch_def)

lemma loadSingleSource_fulfilled:
  "\<exists>arts. snd (loadSingleSource P now s src outcome) = Fulfilled arts"
  by (simp add: loadSingleSource_def loadSingleSource_resume_fulfilled)

lemma loadSingleSource_fails:
  "sourceFails P outcome \<Longrightarrow> snd (loadSingleSource P now s src outcome) = Fulfilled []"
  by (simp add: loadSingleSource_def loadSingleSource_resume_fails)

lemma settleAll_state:
  "settleAll P s tasks =
     s\<lparr>allArticles := allArticles s @ concat (map (contribution P) tasks),
       loadedSources := loadedSources s + length tasks\<rparr>"
proof (induction tasks arbitrary: s)
  case Nil
  show ?case by simp
next
  case (Cons t tasks)
  obtain src outcome now where t: "t = (src, outcome, now)"
    by (cases t) auto
  show ?case
    by (simp add: t Cons.IH loadSingleSource_resume_state)
qed

lemma fetchAll_state:
  "foldl loadSingleSource_fetch s srcs = s\<lparr>fetchLog := fetchLog s @ map src_url srcs\<rparr>"
  by (induction srcs arbitrary: s) (simp_all add: loadSingleSource_fetch_def)

lemma inSettleOrder_map:
  "\<forall>i \<in> set order. i < length tasks \<Longrightarrow> inSettleOrder tasks order = map (\<lambda>i. tasks ! i) order"
  by (induction order) (simp_all add: inSettleOrder_def List.map_filter_simps)

lemma inSettleOrder_length:
  "settlesEachOnce tasks order \<Longrightarrow> length (inSettleOrder tasks order) = length tasks"
proof -
  assume a: "settlesEachOnce tasks order"
  have d: "distinct order" and e: "set order = {0..<length tasks}"
    using a by (simp_all add: settlesEachOnce_def)
  have "\<forall>i \<in> set order. i < length tasks"
    by (simp add: e)
  then have "length (inSettleOrder tasks order) = length order"
    by (simp add: inSettleOrder_map)
  also have "\<dots> = card (set order)"
    using d by (simp add: distinct_card)
  also have "\<dots> = length tasks"
    by (simp add: e)
  finally show ?thesis .
qed

lemma inSettleOrder_set:
  "settlesEachOnce tasks order \<Longrightarrow> set (inSettleOrder tasks order) = set tasks"
proof -
  assume a: "settlesEachOnce tasks order"
  have e: "set order = {0..<length tasks}"
    using a by (simp add: settlesEachOnce_def)
  have "\<forall>i \<in> set order. i < length tasks"
    by (simp add: e)
  then have "set (inSettleOrder tasks order) = (\<lambda>i. tasks ! i) ` set order"
    by (simp add: inSettleOrder_map)
  also have "\<dots> = (\<lambda>i. tasks ! i) ` {0..<length tasks}"
    by (simp only: e)
  also have "\<dots> = set tasks"
    by (auto simp: set_conv_nth)
  finally show ?thesis .
qed

lemma concat_contribution_filter:
  "concat (map (contribution P) (filter (\<lambda>t. \<not> sourceFails P (fst (snd t))) tasks)) =
   concat (map (contribution P) tasks)"
proof (induction tasks)
  case Nil
  show ?case by simp
next
  case (Cons t tasks)
  obtain src outcome now where t: "t = (src, outcome, now)"
    by (cases t) auto
  show ?case
    using Cons.IH by (simp add: t sourceFails_contribution)
qed

lemma processAllArticles_fields:
  "allArticles (processAllArticles P s) = allArticles s"
  "isLoading (processAllArticles P s) = isLoading s"
  "loadedSources (processAllArticles P s) = loadedSources s"
  "totalSources (processAllArticles P s) = totalSources s"
  "lastFetchTime (processAllArticles P s) = lastFetchTime s"
  "fetchLog (processAllArticles P s) = fetchLog s"
  "notifications (processAllArticles P s) = notifications s"
  by (simp_all add: processAllArticles_def Let_def)

lemma processAllArticles_pipeline:
  "articles (processAllArticles P s) =
     take maxArticles (js_sort newestFirst (deduplicateArticles P (allArticles s)))"
  by (simp add: processAllArticles_def Let_def)

lemma startProgressiveLoading_loading:
  "isLoading s \<Longrightarrow> startProgressiveLoading P s tasks order = s"
  by (simp add: startProgressiveLoading_def)

lemma startProgressiveLoading_run:
  assumes "\<not> isLoading s" and "tasks \<noteq> []"
  shows "allArticles (startProgressiveLoading P s tasks order) =
           concat (map (contribution P) (inSettleOrder tasks order))"
    and "loadedSources (startProgressiveLoading P s tasks order) =
           length (inSettleOrder tasks order)"
    and "totalSources (startProgressiveLoading P s tasks order) = length tasks"
    and "isLoading (startProgressiveLoading P s tasks order) = False"
  using assms
  by (simp_all add: startProgressiveLoading_def Let_def settleAll_state fetchAll_state
      processAllArticles_fields)

lemma startProgressiveLoading_articles:
  assumes "\<not> isLoading s" and "tasks \<noteq> []"
  shows "articles (startProgressiveLoading P s tasks order) =
           take maxArticles (js_sort newestFirst (deduplicateArticles P
             (allArticles (startProgressiveLoading P s tasks order))))"
proof -
  let ?s5 = "settleAll P
      (foldl loadSingleSource_fetch
        (s\<lparr>isLoading := True, totalSources := length tasks, allArticles := [], loadedSources := 0\<rparr>)
        (map fst tasks))
      (inSettleOrder tasks order)"
  have a: "articles (startProgressiveLoading P s tasks order) = articles (processAllArticles P ?s5)"
    using assms by (simp add: startProgressiveLoading_def Let_def)
  have b: "allArticles (startProgressiveLoading P s tasks order) = allArticles ?s5"
    using assms by (simp add: startProgressiveLoading_def Let_def processAllArticles_fields)
  show ?thesis
    by (simp only: a b processAllArticles_pipeline)
qed

lemma startProgressiveLoading_lastFetchTime:
  "lastFetchTime (startProgressiveLoading P s tasks order) = lastFetchTime s"
  by (simp add: startProgressiveLoading_def Let_def settleAll_state fetchAll_state
      processAllArticles_fields)


lemma deduplicateArticles_representative:
  assumes "a \<in> set xs"
  shows "\<exists>b. find (\<lambda>x. dedupKey P x = dedupKey P a) xs = Some b
           \<and> b \<in> set (deduplicateArticles P xs) \<and> dedupKey P b = dedupKey P a"
proof -
  have "find (\<lambda>x. dedupKey P x = dedupKey P a) xs \<noteq> None"
    using assms by (auto simp: find_None_iff)
  then obtain b where b: "find (\<lambda>x. dedupKey P x = dedupKey P a) xs = Some b"
    by blast
  then have k: "dedupKey P b = dedupKey P a"
    by (auto simp: find_Some_iff)
  have "filter (\<lambda>x. dedupKey P x = dedupKey P a) (deduplicateArticles P xs) = [b]"
    using b by (simp add: deduplicateArticles_def dedupLoop_filter)
  then have "b \<in> set (filter (\<lambda>x. dedupKey P x = dedupKey P a) (deduplicateArticles P xs))"
    by simp
  then have "b \<in> set (deduplicateArticles P xs)"
    by simp
  with b k show ?thesis by blast
qed

lemma processAllArticles_within_cap:
  "length (deduplicateArticles P (allArticles s)) \<le> maxArticles \<Longrightarrow>
   set (articles (processAllArticles P s)) = set (deduplicateArticles P (allArticles s))"
  by (simp add: processAllArticles_articles)

section \<open>The sample refresh, evaluated\<close>

lemma sample_document:
  "parseFromString samplePlatform (js ''<rss>twelve items</rss>'') = Document sampleItems"
  by (simp add: samplePlatform_def)

lemma storm_document:
  "parseFromString samplePlatform (js ''<rss>storm twice</rss>'') = Document stormItems"
  by (simp add: samplePlatform_def)

lemma sample_malformed:
  "parseFromString samplePlatform (js ''<rss><item></rss>'') = ParserError"
  by (simp add: samplePlatform_def)

lemma sample_length: "length sampleItems = 12"
  by (simp add: sampleItems_def)

lemma sample_extracted_titles:
  "map art_title
     (List.map_filter (\<lambda>it. extractArticleFromItem P now it src) (take 10 sampleItems)) =
   map js [''n01'', ''n03'', ''n05'', ''n06'', ''n07'', ''n08'', ''n09'', ''n10'']"
  by (simp add: sampleItems_def sampleItem_def extractArticleFromItem_def
      Let_def getElementText_def itemLink_def trim_def isSpace_def sanitizeText_def)

lemma sample_extracted_dates:
  "map art_publishedAt
     (List.map_filter (\<lambda>it. extractArticleFromItem samplePlatform now it src) (take 10 sampleItems)) =
   [1793700000000, 1793700000000, 1793700000000, 1793700000000,
    1793700000000, 1793700000000, 1793700000000, 1793700000000]"
  by (simp add: sampleItems_def sampleItem_def extractArticleFromItem_def
      Let_def getElementText_def itemLink_def trim_def isSpace_def parseDate_def samplePlatform_def)

lemma storm_extracted_titles:
  "map art_title
     (List.map_filter (\<lambda>it. extractArticleFromItem P now it src) (take 10 stormItems)) =
   map js [''Storm hits coast'', ''Storm hits coast!'']"
  by (simp add: stormItems_def sampleItem_def extractArticleFromItem_def
      Let_def getElementText_def itemLink_def trim_def isSpace_def sanitizeText_def)

lemma sample_title_keys:
  "map (\<lambda>t. take 50 (trim (collapseSpaces (removeNonWordNonSpace (toLowerCase samplePlatform t)))))
     (map js [''n01'', ''n03'', ''n05'', ''n06'', ''n07'', ''Storm hits coast'', ''Storm hits coast!'',
              ''Markets rally'', '' Storm   hits coast! '', ''Election day'']) =
   map js [''n01'', ''n03'', ''n05'', ''n06'', ''n07'', ''storm hits coast'', ''storm hits coast'',
           ''markets rally'', ''storm hits coast'', ''election day'']"
  by (simp add: samplePlatform_def sampleLower_def removeNonWordNonSpace_def isWordChar_def
      trim_def isSpace_def)

lemma dedupKey_title:
  "dedupKey P a =
     take 50 (trim (collapseSpaces (removeNonWordNonSpace (toLowerCase P (art_title a)))))"
  by (simp add: dedupKey_def)

lemma sample_keys:
  "map (dedupKey samplePlatform) sampleArticles =
     map js [''storm hits coast'', ''markets rally'', ''storm hits coast'', ''election day'']"
  using sample_title_keys
  by (simp add: sampleArticles_def sampleArticle_def dedupKey_title)

lemma sample_sanitizeText:
  "sanitizeText (js ''<b>Storm</b> &amp; flood   hits <i>coast</i> '') =
     js ''Storm flood hits coast''"
  by (simp add: sanitizeText_def trim_def isSpace_def)

lemma sample_imgSrcMatch:
  "imgSrcMatch (js ''<p><IMG alt='x' src=\"https://a.example/c.jpg\"> text'') =
     Some (js ''https://a.example/c.jpg'')"
  by code_simp

lemma sample_hash:
  "\<bar>sint (hash32 (toLowerCase samplePlatform
       (js ''Storm hits coast'' @ js ''https://example.org/storm'')))\<bar> = 1039104734"
  by (simp add: samplePlatform_def sampleLower_def hash32_def hash32_step_def)

lemma sample_base36: "toString36 1039104734 = js ''h6nmce''"
  by (simp add: toString36.simps digit36_def)

lemma sample_settles: "settlesEachOnce sampleTasks sampleOrder"
  by (auto simp: settlesEachOnce_def sampleTasks_def sampleOrder_def)

lemma storm_settles: "settlesEachOnce stormTasks [0, 1]"
  by (auto simp: settlesEachOnce_def stormTasks_def)

lemma sample_fails:
  "sourceFails samplePlatform NetworkError"
  "sourceFails samplePlatform (HttpResponse False 503 None)"
  "sourceFails samplePlatform (HttpResponse True 200 (Some (js ''<rss><item></rss>'')))"
  "\<not> sourceFails samplePlatform (HttpResponse True 200 (Some (js ''<rss>twelve items</rss>'')))"
  "\<not> sourceFails samplePlatform (HttpResponse True 200 (Some (js ''<rss>storm twice</rss>'')))"
  by (simp_all add: sourceFails_def samplePlatform_def)

lemma storm_contribution:
  "contribution samplePlatform
     (sampleSource ''b'', HttpResponse True 200 (Some (js ''<rss>storm twice</rss>'')), now) =
   take 5 (List.map_filter
     (\<lambda>it. extractArticleFromItem samplePlatform now it (sampleSource ''b'')) (take 10 stormItems))"
  by (simp add: contribution_def maxArticlesPerSource_def parseRSSFeed_def forEachItem_take
      samplePlatform_def)

lemma aggregate_unchanged:
  assumes "distinct (map (dedupKey P) xs)"
    and "sorted (map (\<lambda>a. - art_publishedAt a) xs)"
    and "length xs \<le> maxArticles"
  shows "take maxArticles (js_sort newestFirst (deduplicateArticles P xs)) = xs"
proof -
  have "deduplicateArticles P xs = xs"
    using assms(1) by (simp add: deduplicateArticles_def dedupLoop_id)
  moreover have "sort_key (\<lambda>a. - art_publishedAt a) xs = xs"
    using assms(2) by (rule sort_key_id_if_sorted)
  ultimately show ?thesis
    using assms(3) by (simp add: js_sort_newestFirst)
qed

lemma sample_processed:
  "map art_title
     (articles (processAllArticles samplePlatform (initialState\<lparr>allArticles := sampleArticles\<rparr>))) =
     map js [''Markets rally'', ''Election day'', ''Storm hits coast'']"
proof -
  have k: "dedupKey samplePlatform (sampleArticle ''Storm hits coast'' 100) = js ''storm hits coast''"
    "dedupKey samplePlatform (sampleArticle ''Markets rally'' 300) = js ''markets rally''"
    "dedupKey samplePlatform (sampleArticle '' Storm   hits coast! '' 200) = js ''storm hits coast''"
    "dedupKey samplePlatform (sampleArticle ''Election day'' 300) = js ''election day''"
    using sample_keys by (simp_all add: sampleArticles_def)
  have d: "deduplicateArticles samplePlatform sampleArticles =
      [sampleArticle ''Storm hits coast'' 100, sampleArticle ''Markets rally'' 300,
       sampleArticle ''Election day'' 300]"
    by (simp add: deduplicateArticles_def sampleArticles_def k)
  have "articles (processAllArticles samplePlatform (initialState\<lparr>allArticles := sampleArticles\<rparr>)) =
      take maxArticles (js_sort newestFirst (deduplicateArticles samplePlatform sampleArticles))"
    by (simp add: processAllArticles_def Let_def)
  also have "\<dots> = [sampleArticle ''Markets rally'' 300, sampleArticle ''Election day'' 300,
      sampleArticle ''Storm hits coast'' 100]"
    by (simp only: d) (simp add: js_sort_def newestFirst_def maxArticles_def sampleArticle_def)
  finally show ?thesis
    by (simp add: sampleArticle_def)
qed


section \<open>The claims\<close>

text \<open>
  Claim C1 (failure isolation of the refresh), as the code has it. A per-source task never
  rejects: it is fulfilled whatever its fetch comes to, and a source whose fetch fails,
  whose response is not OK, whose body cannot be read or whose document is malformed
  returns the empty list and leaves \<open>allArticles\<close> as it was. For a refresh that is
  admitted (no other one in progress) over at least one source, with every task settling
  once, in whatever order:
  \<^item> the accumulated \<open>allArticles\<close> is the concatenation, in the order of settling, of the
    contributions of the sources that did not fail, so every contributed article of every
    source is in it;
  \<^item> all dispatched tasks have settled when the aggregation runs (\<open>loadedSources\<close> equals
    the number of tasks);
  \<^item> the aggregated \<open>articles\<close> are the deduplicated, sorted and capped \<open>allArticles\<close>;
  \<^item> when the deduplicated list is within the cap, every contributed article is
    represented among the aggregated \<open>articles\<close> by the first accumulated article with its
    key.
\<close>

theorem refresh_failure_isolation:
  assumes "\<not> isLoading s" and "tasks \<noteq> []" and "settlesEachOnce tasks order"
  shows
    "(\<forall>s0 src outcome now.
        \<exists>s1 arts. loadSingleSource P now s0 src outcome = (s1, Fulfilled arts)
          \<and> (sourceFails P outcome \<longrightarrow> arts = [] \<and> allArticles s1 = allArticles s0))
     \<and> (\<forall>t \<in> set tasks. sourceFails P (fst (snd t)) \<longrightarrow> contribution P t = [])
     \<and> allArticles (startProgressiveLoading P s tasks order) =
         concat (map (contribution P)
           (filter (\<lambda>t. \<not> sourceFails P (fst (snd t))) (inSettleOrder tasks order)))
     \<and> (\<forall>t \<in> set tasks.
          set (contribution P t) \<subseteq> set (allArticles (startProgressiveLoading P s tasks order)))
     \<and> loadedSources (startProgressiveLoading P s tasks order) = length tasks
     \<and> totalSources (startProgressiveLoading P s tasks order) = length tasks
     \<and> articles (startProgressiveLoading P s tasks order) =
         take maxArticles (js_sort newestFirst (deduplicateArticles P
           (allArticles (startProgressiveLoading P s tasks order))))
     \<and> (length (deduplicateArticles P (allArticles (startProgressiveLoading P s tasks order)))
           \<le> maxArticles \<longrightarrow>
         (\<forall>t \<in> set tasks. \<forall>a \<in> set (contribution P t).
            \<exists>b \<in> set (articles (startProgressiveLoading P s tasks order)).
              dedupKey P b = dedupKey P a
              \<and> find (\<lambda>x. dedupKey P x = dedupKey P a)
                    (allArticles (startProgressiveLoading P s tasks order)) = Some b))"
proof (intro conjI allI ballI impI)
  fix s0 src outcome now
  obtain arts where a: "snd (loadSingleSource P now s0 src outcome) = Fulfilled arts"
    using loadSingleSource_fulfilled by blast
  have f: "sourceFails P outcome \<longrightarrow>
             arts = [] \<and> allArticles (fst (loadSingleSource P now s0 src outcome)) = allArticles s0"
    using a loadSingleSource_fails [of P outcome now s0 src]
    by (auto simp: loadSingleSource_state sourceFails_contribution)
  have "loadSingleSource P now s0 src outcome =
          (fst (loadSingleSource P now s0 src outcome), Fulfilled arts)"
    using a by (simp add: prod_eq_iff)
  with f show "\<exists>s1 arts. loadSingleSource P now s0 src outcome = (s1, Fulfilled arts)
          \<and> (sourceFails P outcome \<longrightarrow> arts = [] \<and> allArticles s1 = allArticles s0)"
    by blast
next
  fix t
  assume "t \<in> set tasks" and "sourceFails P (fst (snd t))"
  then show "contribution P t = []"
    using sourceFails_contribution [of P "fst (snd t)" "fst t" "snd (snd t)"] by simp
next
  show "allArticles (startProgressiveLoading P s tasks order) =
         concat (map (contribution P)
           (filter (\<lambda>t. \<not> sourceFails P (fst (snd t))) (inSettleOrder tasks order)))"
    using assms(1,2) by (simp add: startProgressiveLoading_run concat_contribution_filter)
next
  fix t
  assume "t \<in> set tasks"
  then have "t \<in> set (inSettleOrder tasks order)"
    using assms(3) by (simp add: inSettleOrder_set)
  then show "set (contribution P t) \<subseteq> set (allArticles (startProgressiveLoading P s tasks order))"
    using assms(1,2) by (auto simp: startProgressiveLoading_run)
next
  show "loadedSources (startProgressiveLoading P s tasks order) = length tasks"
    using assms by (simp add: startProgressiveLoading_run inSettleOrder_length)
next
  show "totalSources (startProgressiveLoading P s tasks order) = length tasks"
    using assms(1,2) by (simp add: startProgressiveLoading_run)
next
  show "articles (startProgressiveLoading P s tasks order) =
         take maxArticles (js_sort newestFirst (deduplicateArticles P
           (allArticles (startProgressiveLoading P s tasks order))))"
    using assms(1,2) by (rule startProgressiveLoading_articles)
next
  fix t a
  let ?s' = "startProgressiveLoading P s tasks order"
  assume cap: "length (deduplicateArticles P (allArticles ?s')) \<le> maxArticles"
    and t: "t \<in> set tasks" and a: "a \<in> set (contribution P t)"
  have "t \<in> set (inSettleOrder tasks order)"
    using t assms(3) by (simp add: inSettleOrder_set)
  then have "a \<in> set (allArticles ?s')"
    using a assms(1,2) by (auto simp: startProgressiveLoading_run)
  then obtain b where b: "find (\<lambda>x. dedupKey P x = dedupKey P a) (allArticles ?s') = Some b"
      and m: "b \<in> set (deduplicateArticles P (allArticles ?s'))"
      and k: "dedupKey P b = dedupKey P a"
    using deduplicateArticles_representative by blast
  have "set (articles ?s') = set (deduplicateArticles P (allArticles ?s'))"
    using cap
    by (simp add: startProgressiveLoading_articles [OF assms(1,2)] js_sort_newestFirst)
  with m have "b \<in> set (articles ?s')"
    by simp
  with b k show "\<exists>b \<in> set (articles ?s').
      dedupKey P b = dedupKey P a
      \<and> find (\<lambda>x. dedupKey P x = dedupKey P a) (allArticles ?s') = Some b"
    by blast
qed

theorem refresh_failure_isolation_witness:
  "\<not> isLoading initialState \<and> sampleTasks \<noteq> [] \<and> settlesEachOnce sampleTasks sampleOrder
   \<and> sourceFails samplePlatform NetworkError
   \<and> sourceFails samplePlatform (HttpResponse False 503 None)
   \<and> sourceFails samplePlatform (HttpResponse True 200 (Some (js ''<rss><item></rss>'')))
   \<and> map art_title
        (allArticles (startProgressiveLoading samplePlatform initialState sampleTasks sampleOrder)) =
       map js [''n01'', ''n03'', ''n05'', ''n06'', ''n07'']
   \<and> loadedSources (startProgressiveLoading samplePlatform initialState sampleTasks sampleOrder) = 4
   \<and> map art_title
        (articles (startProgressiveLoading samplePlatform initialState sampleTasks sampleOrder)) =
       map js [''n01'', ''n03'', ''n05'', ''n06'', ''n07'']"
proof -
  let ?s' = "startProgressiveLoading samplePlatform initialState sampleTasks sampleOrder"
  let ?xs = "take 5 (List.map_filter
      (\<lambda>it. extractArticleFromItem samplePlatform 1793700000900 it (sampleSource ''b''))
      (take 10 sampleItems))"
  have h1: "\<not> isLoading initialState"
    by (simp add: initialState_def)
  have h2: "sampleTasks \<noteq> []"
    by (simp add: sampleTasks_def)
  note T = refresh_failure_isolation [OF h1 h2 sample_settles, of samplePlatform]
  have "allArticles ?s' =
          concat (map (contribution samplePlatform)
            (filter (\<lambda>t. \<not> sourceFails samplePlatform (fst (snd t)))
              (inSettleOrder sampleTasks sampleOrder)))"
    using T by (elim conjE)
  also have "\<dots> = ?xs"
    by (simp add: inSettleOrder_def sampleTasks_def sampleOrder_def sourceFails_def
        contribution_def maxArticlesPerSource_def parseRSSFeed_def forEachItem_take
        samplePlatform_def)
  finally have all: "allArticles ?s' = ?xs" .
  have titles: "map art_title ?xs = map js [''n01'', ''n03'', ''n05'', ''n06'', ''n07'']"
    by (simp add: sample_extracted_titles flip: take_map)
  have a: "map art_title (allArticles ?s') = map js [''n01'', ''n03'', ''n05'', ''n06'', ''n07'']"
    by (simp only: all titles)
  have "loadedSources ?s' = length sampleTasks"
    using T by (elim conjE)
  then have l: "loadedSources ?s' = 4"
    by (simp add: sampleTasks_def)
  have "map (dedupKey samplePlatform) ?xs =
      map (\<lambda>t. take 50 (trim (collapseSpaces (removeNonWordNonSpace (toLowerCase samplePlatform t)))))
        (map art_title ?xs)"
    by (simp add: dedupKey_title comp_def)
  also have "\<dots> = map js [''n01'', ''n03'', ''n05'', ''n06'', ''n07'']"
    using sample_title_keys by (simp add: titles)
  finally have d: "distinct (map (dedupKey samplePlatform) ?xs)"
    by simp
  have "map (\<lambda>a. - art_publishedAt a) ?xs = map uminus (map art_publishedAt ?xs)"
    by (simp add: comp_def)
  also have "\<dots> = [- 1793700000000, - 1793700000000, - 1793700000000, - 1793700000000,
      - 1793700000000]"
    by (simp add: sample_extracted_dates flip: take_map)
  finally have so: "sorted (map (\<lambda>a. - art_publishedAt a) ?xs)"
    by simp
  have len: "length ?xs \<le> maxArticles"
    by (simp add: maxArticles_def)
  have "articles ?s' =
      take maxArticles (js_sort newestFirst (deduplicateArticles samplePlatform (allArticles ?s')))"
    using T by (elim conjE)
  then have "articles ?s' = ?xs"
    by (simp only: all aggregate_unchanged [OF d so len])
  then have b: "map art_title (articles ?s') = map js [''n01'', ''n03'', ''n05'', ''n06'', ''n07'']"
    by (simp only: titles)
  from h1 h2 sample_settles sample_fails(1,2,3) a l b show ?thesis by (intro conjI)
qed

text \<open>
  A contributed article itself need not be among the aggregated articles: a source whose
  two items have the same key, next to a source that fails, keeps only the first of them.
\<close>

theorem refresh_failure_isolation_counterexample:
  "\<not> isLoading initialState \<and> settlesEachOnce stormTasks [0, 1]
   \<and> sourceFails samplePlatform (fst (snd (stormTasks ! 0)))
   \<and> \<not> sourceFails samplePlatform (fst (snd (stormTasks ! 1)))
   \<and> contribution samplePlatform (stormTasks ! 1) ! 1 \<in> set (contribution samplePlatform (stormTasks ! 1))
   \<and> contribution samplePlatform (stormTasks ! 1) ! 1
       \<notin> set (articles (startProgressiveLoading samplePlatform initialState stormTasks [0, 1]))"
proof -
  let ?s' = "startProgressiveLoading samplePlatform initialState stormTasks [0, 1]"
  define xs where "xs = take 5 (List.map_filter
      (\<lambda>it. extractArticleFromItem samplePlatform 1793700002000 it (sampleSource ''b''))
      (take 10 stormItems))"
  have h1: "\<not> isLoading initialState"
    by (simp add: initialState_def)
  have h2: "stormTasks \<noteq> []"
    by (simp add: stormTasks_def)
  have f0: "sourceFails samplePlatform (fst (snd (stormTasks ! 0)))"
    by (simp add: stormTasks_def sourceFails_def)
  have f1: "\<not> sourceFails samplePlatform (fst (snd (stormTasks ! 1)))"
    by (simp add: stormTasks_def sourceFails_def samplePlatform_def)
  have t1: "stormTasks ! 1 =
      (sampleSource ''b'', HttpResponse True 200 (Some (js ''<rss>storm twice</rss>'')),
       1793700002000)"
    by (simp add: stormTasks_def)
  have c: "contribution samplePlatform (stormTasks ! 1) = xs"
    by (simp only: t1 storm_contribution xs_def)
  have titles: "map art_title xs = map js [''Storm hits coast'', ''Storm hits coast!'']"
    by (simp add: xs_def storm_extracted_titles flip: take_map)
  then have "length (map art_title xs) = 2"
    by (simp only:) simp
  then have "length xs = 2"
    by (simp only: length_map)
  then obtain u v where uv: "xs = [u, v]"
    by (auto simp: length_Suc_conv numeral_2_eq_2)
  have tu: "art_title u = js ''Storm hits coast''" and tv: "art_title v = js ''Storm hits coast!''"
    using titles by (simp_all add: uv)
  have ku: "dedupKey samplePlatform u = js ''storm hits coast''"
    and kv: "dedupKey samplePlatform v = js ''storm hits coast''"
    using sample_title_keys by (simp_all add: dedupKey_title tu tv)
  have "allArticles ?s' = concat (map (contribution samplePlatform) (inSettleOrder stormTasks [0, 1]))"
    using h1 h2 by (rule startProgressiveLoading_run)
  also have "\<dots> = contribution samplePlatform (stormTasks ! 1)"
    by (simp add: inSettleOrder_def stormTasks_def contribution_def)
  also have "\<dots> = xs"
    by (rule c)
  finally have all: "allArticles ?s' = [u, v]"
    by (simp only: uv)
  have "articles ?s' =
      take maxArticles (js_sort newestFirst (deduplicateArticles samplePlatform (allArticles ?s')))"
    using h1 h2 by (rule startProgressiveLoading_articles)
  then have "articles ?s' =
      take maxArticles (js_sort newestFirst (deduplicateArticles samplePlatform [u, v]))"
    by (simp only: all)
  also have "\<dots> = [u]"
    by (simp add: deduplicateArticles_def ku kv js_sort_def maxArticles_def)
  finally have "articles ?s' = [u]" .
  moreover have "v \<noteq> u"
    using tu tv by auto
  ultimately have n: "v \<notin> set (articles ?s')"
    by simp
  have m: "contribution samplePlatform (stormTasks ! 1) ! 1 = v"
    by (simp only: c uv) simp
  have i: "contribution samplePlatform (stormTasks ! 1) ! 1
      \<in> set (contribution samplePlatform (stormTasks ! 1))"
    by (simp only: c uv) simp
  from h1 storm_settles f0 f1 i n show ?thesis
    by (simp only: m simp_thms)
qed

text \<open>
  Claim C2 (article id). For every title and url the id is the base-36 numeral of the
  absolute value of a 32-bit signed hash of \<open>lowercase (title + url)\<close>. The hash starts
  at 0 and is updated per code unit by \<open>hash := (hash << 5) - hash + charCode\<close> with
  wrap-around. The id consists of the digits \<^verbatim>\<open>0-9a-z\<close>, has no leading zero unless
  it is \<^verbatim>\<open>"0"\<close>, and read as a base-36 numeral it is that absolute value. The id
  depends on the two strings and the engine's lower-casing alone.
\<close>

theorem generateArticleId_hash32:
  "generateArticleId P title url = toString36 \<bar>sint (hash32 (toLowerCase P (title @ url)))\<bar>
   \<and> hash32 [] = 0
   \<and> (\<forall>s c. hash32 (s @ [c]) = push_bit 5 (hash32 s) - hash32 s + of_nat c)
   \<and> fromBase36 (generateArticleId P title url) =
       \<bar>sint (hash32 (toLowerCase P (title @ url)))\<bar>
   \<and> (\<forall>c \<in> set (generateArticleId P title url). isDigit36 c)
   \<and> generateArticleId P title url \<noteq> []
   \<and> (hd (generateArticleId P title url) = cu CHR ''0'' \<longrightarrow>
        generateArticleId P title url = js ''0'')
   \<and> (toLowerCase P = toLowerCase P' \<longrightarrow>
        generateArticleId P title url = generateArticleId P' title url)"
proof -
  let ?h = "\<bar>sint (hash32 (toLowerCase P (title @ url)))\<bar>"
  have id: "generateArticleId P title url = toString36 ?h"
    using hashLoop_refines [of 0 "toLowerCase P (title @ url)"]
    by (simp add: generateArticleId_def hash32_def)
  have zero: "hd (toString36 ?h) = cu CHR ''0'' \<longrightarrow> toString36 ?h = js ''0''"
  proof
    assume z: "hd (toString36 ?h) = cu CHR ''0''"
    have "\<not> 0 < ?h"
      using z toString36_canonical [of ?h] by blast
    then have "?h = 0" by simp
    then show "toString36 ?h = js ''0''"
      by (simp add: toString36.simps [of 0] digit36_def)
  qed
  have pure: "toLowerCase P = toLowerCase P' \<longrightarrow>
        generateArticleId P title url = generateArticleId P' title url"
    by (simp add: generateArticleId_def)
  have h0: "hash32 [] = 0"
    by (simp add: hash32_def)
  have dec: "fromBase36 (toString36 ?h) = ?h"
    by (rule fromBase36_toString36) simp
  have dig: "\<forall>c \<in> set (toString36 ?h). isDigit36 c"
    using toString36_digits by blast
  show ?thesis
    unfolding id
    using h0 hash32_snoc dec dig toString36_nonempty [of ?h] zero pure [unfolded id]
    by (intro conjI allI) blast+
qed

theorem generateArticleId_hash32_witness:
  "generateArticleId samplePlatform (js ''Storm hits coast'') (js ''https://example.org/storm'') =
     js ''h6nmce''
   \<and> fromBase36 (js ''h6nmce'') = 1039104734
   \<and> cu CHR ''h'' \<in> set (js ''h6nmce'') \<and> isDigit36 (cu CHR ''h'')
   \<and> hd (generateArticleId samplePlatform [] []) = cu CHR ''0''
   \<and> generateArticleId samplePlatform [] [] = js ''0''
   \<and> toLowerCase samplePlatform = toLowerCase (samplePlatform\<lparr>newDate := \<lambda>d. None\<rparr>)
   \<and> generateArticleId (samplePlatform\<lparr>newDate := \<lambda>d. None\<rparr>)
         (js ''Storm hits coast'') (js ''https://example.org/storm'') = js ''h6nmce''"
proof -
  note T = generateArticleId_hash32 [of samplePlatform "js ''Storm hits coast''"
      "js ''https://example.org/storm''" "samplePlatform\<lparr>newDate := \<lambda>d. None\<rparr>"]
  note Z = generateArticleId_hash32 [of samplePlatform "[]" "[]" samplePlatform]
  have "generateArticleId samplePlatform (js ''Storm hits coast'')
      (js ''https://example.org/storm'') =
        toString36 \<bar>sint (hash32 (toLowerCase samplePlatform
          (js ''Storm hits coast'' @ js ''https://example.org/storm'')))\<bar>"
    using T by (elim conjE)
  then have a: "generateArticleId samplePlatform (js ''Storm hits coast'')
      (js ''https://example.org/storm'') = js ''h6nmce''"
    by (simp only: sample_hash sample_base36)
  have "fromBase36 (generateArticleId samplePlatform (js ''Storm hits coast'')
      (js ''https://example.org/storm'')) =
        \<bar>sint (hash32 (toLowerCase samplePlatform
          (js ''Storm hits coast'' @ js ''https://example.org/storm'')))\<bar>"
    using T by (elim conjE)
  then have b: "fromBase36 (js ''h6nmce'') = 1039104734"
    by (simp only: a sample_hash)
  have "\<forall>c \<in> set (generateArticleId samplePlatform (js ''Storm hits coast'')
      (js ''https://example.org/storm'')). isDigit36 c"
    using T by (elim conjE)
  then have "\<forall>c \<in> set (js ''h6nmce''). isDigit36 c"
    by (simp only: a)
  moreover have c: "cu CHR ''h'' \<in> set (js ''h6nmce'')"
    by simp
  ultimately have d: "isDigit36 (cu CHR ''h'')"
    by blast
  have "toString36 \<bar>sint (hash32 (toLowerCase samplePlatform ([] @ [])))\<bar> = js ''0''"
    by (simp add: samplePlatform_def sampleLower_def hash32_def toString36.simps digit36_def)
  moreover have "generateArticleId samplePlatform [] [] =
      toString36 \<bar>sint (hash32 (toLowerCase samplePlatform ([] @ [])))\<bar>"
    using Z by (elim conjE)
  ultimately have e: "generateArticleId samplePlatform [] [] = js ''0''"
    by (simp only:)
  then have f: "hd (generateArticleId samplePlatform [] []) = cu CHR ''0''"
    by simp
  have g: "toLowerCase samplePlatform = toLowerCase (samplePlatform\<lparr>newDate := \<lambda>d. None\<rparr>)"
    by simp
  have "generateArticleId samplePlatform (js ''Storm hits coast'') (js ''https://example.org/storm'') =
        generateArticleId (samplePlatform\<lparr>newDate := \<lambda>d. None\<rparr>)
          (js ''Storm hits coast'') (js ''https://example.org/storm'')"
    using T g by blast
  then have h: "generateArticleId (samplePlatform\<lparr>newDate := \<lambda>d. None\<rparr>)
         (js ''Storm hits coast'') (js ''https://example.org/storm'') = js ''h6nmce''"
    using a by simp
  from a b c d f e g h show ?thesis by (intro conjI)
qed

text \<open>
  Claim C3 (deduplication). The key of an article is its title in lower case, without
  the characters that are neither word characters nor white space, with white space
  collapsed, trimmed, cut to 50 characters. In terms of list functions only: of the
  remaining characters, a white-space character is dropped when the character before it is
  white space and is otherwise written as a space; then the white space at both ends is
  dropped; then the first 50 characters are taken. So the key has at most 50 characters,
  each a word character or a space, no two spaces in a row, no space in front, and none
  at the end unless the cut made it so. The result of the deduplication has pairwise
  distinct keys, keeps the input order, and holds for every key exactly the first article
  of the input with that key (none when the input has none).
\<close>

theorem deduplicateArticles_first_wins:
  "dedupKey P a =
     take 50 (rev (dropWhile isSpace (rev (dropWhile isSpace
       (map (\<lambda>c. if isSpace c then cu CHR '' '' else c)
         (map snd (filter (\<lambda>(p, c). \<not> (isSpace p \<and> isSpace c))
           (zip (0 # filter (\<lambda>c. isWordChar c \<or> isSpace c) (toLowerCase P (art_title a)))
                (filter (\<lambda>c. isWordChar c \<or> isSpace c) (toLowerCase P (art_title a)))))))))))
   \<and> (isWordChar c \<longleftrightarrow> c \<in> {48..57} \<union> {65..90} \<union> {95} \<union> {97..122})
   \<and> (isSpace c \<longleftrightarrow>
        c \<in> {9..13} \<union> {32, 160, 5760} \<union> {8192..8202} \<union> {8232, 8233, 8239, 8287, 12288, 65279})
   \<and> length (dedupKey P a) \<le> 50
   \<and> (\<forall>c \<in> set (dedupKey P a). isWordChar c \<or> c = cu CHR '' '')
   \<and> successively (\<lambda>x y. \<not> (isSpace x \<and> isSpace y)) (dedupKey P a)
   \<and> (dedupKey P a = [] \<or> \<not> isSpace (hd (dedupKey P a)))
   \<and> (length (dedupKey P a) < 50 \<longrightarrow> dedupKey P a = [] \<or> \<not> isSpace (last (dedupKey P a)))
   \<and> distinct (map (dedupKey P) (deduplicateArticles P xs))
   \<and> subseq (deduplicateArticles P xs) xs
   \<and> filter (\<lambda>b. dedupKey P b = k) (deduplicateArticles P xs) =
       (case find (\<lambda>b. dedupKey P b = k) xs of None \<Rightarrow> [] | Some b \<Rightarrow> [b])"
proof (intro conjI)
  show "dedupKey P a =
     take 50 (rev (dropWhile isSpace (rev (dropWhile isSpace
       (map (\<lambda>c. if isSpace c then cu CHR '' '' else c)
         (map snd (filter (\<lambda>(p, c). \<not> (isSpace p \<and> isSpace c))
           (zip (0 # filter (\<lambda>c. isWordChar c \<or> isSpace c) (toLowerCase P (art_title a)))
                (filter (\<lambda>c. isWordChar c \<or> isSpace c) (toLowerCase P (art_title a)))))))))))"
    by (rule dedupKey_pairs)
  show "isWordChar c \<longleftrightarrow> c \<in> {48..57} \<union> {65..90} \<union> {95} \<union> {97..122}"
    by (auto simp: isWordChar_def)
  show "isSpace c \<longleftrightarrow>
        c \<in> {9..13} \<union> {32, 160, 5760} \<union> {8192..8202} \<union> {8232, 8233, 8239, 8287, 12288, 65279}"
    by (auto simp: isSpace_def)
  show "length (dedupKey P a) \<le> 50"
    by (simp add: dedupKey_def)
  show "\<forall>c \<in> set (dedupKey P a). isWordChar c \<or> c = cu CHR '' ''"
    using dedupKey_chars by blast
  show "successively (\<lambda>x y. \<not> (isSpace x \<and> isSpace y)) (dedupKey P a)"
    by (rule dedupKey_single)
  show "dedupKey P a = [] \<or> \<not> isSpace (hd (dedupKey P a))"
    by (rule dedupKey_hd)
  show "length (dedupKey P a) < 50 \<longrightarrow> dedupKey P a = [] \<or> \<not> isSpace (last (dedupKey P a))"
    using dedupKey_last by blast
  show "distinct (map (dedupKey P) (deduplicateArticles P xs))"
    by (simp add: deduplicateArticles_def dedupLoop_distinct)
  show "subseq (deduplicateArticles P xs) xs"
    by (simp add: deduplicateArticles_def dedupLoop_subseq)
  show "filter (\<lambda>b. dedupKey P b = k) (deduplicateArticles P xs) =
       (case find (\<lambda>b. dedupKey P b = k) xs of None \<Rightarrow> [] | Some b \<Rightarrow> [b])"
    by (simp add: deduplicateArticles_def dedupLoop_filter)
qed

theorem deduplicateArticles_first_wins_witness:
  "dedupKey samplePlatform (sampleArticle '' Storm   hits coast! '' 200) = js ''storm hits coast''
   \<and> cu CHR ''s'' \<in> set (js ''storm hits coast'') \<and> isWordChar (cu CHR ''s'')
   \<and> js ''storm hits coast'' \<noteq> [] \<and> \<not> isSpace (hd (js ''storm hits coast''))
   \<and> length (js ''storm hits coast'') < 50 \<and> \<not> isSpace (last (js ''storm hits coast''))
   \<and> find (\<lambda>b. dedupKey samplePlatform b = js ''storm hits coast'') sampleArticles =
       Some (sampleArticle ''Storm hits coast'' 100)
   \<and> filter (\<lambda>b. dedupKey samplePlatform b = js ''storm hits coast'')
         (deduplicateArticles samplePlatform sampleArticles) =
       [sampleArticle ''Storm hits coast'' 100]
   \<and> filter (\<lambda>b. dedupKey samplePlatform b = js ''no such title'')
         (deduplicateArticles samplePlatform sampleArticles) = []"
proof -
  note T = deduplicateArticles_first_wins [of samplePlatform
      "sampleArticle '' Storm   hits coast! '' 200" "cu CHR ''s''" sampleArticles
      "js ''storm hits coast''"]
  note N = deduplicateArticles_first_wins [of samplePlatform
      "sampleArticle '' Storm   hits coast! '' 200" "cu CHR ''s''" sampleArticles
      "js ''no such title''"]
  have k: "dedupKey samplePlatform (sampleArticle ''Storm hits coast'' 100) = js ''storm hits coast''"
    "dedupKey samplePlatform (sampleArticle ''Markets rally'' 300) = js ''markets rally''"
    "dedupKey samplePlatform (sampleArticle '' Storm   hits coast! '' 200) = js ''storm hits coast''"
    "dedupKey samplePlatform (sampleArticle ''Election day'' 300) = js ''election day''"
    using sample_keys by (simp_all add: sampleArticles_def)
  have "dedupKey samplePlatform (sampleArticle '' Storm   hits coast! '' 200) =
     take 50 (rev (dropWhile isSpace (rev (dropWhile isSpace
       (map (\<lambda>c. if isSpace c then cu CHR '' '' else c)
         (map snd (filter (\<lambda>(p, c). \<not> (isSpace p \<and> isSpace c))
           (zip (0 # filter (\<lambda>c. isWordChar c \<or> isSpace c)
                   (toLowerCase samplePlatform (art_title (sampleArticle '' Storm   hits coast! '' 200))))
                (filter (\<lambda>c. isWordChar c \<or> isSpace c)
                   (toLowerCase samplePlatform (art_title (sampleArticle '' Storm   hits coast! '' 200))))))))))))"
    using T by (elim conjE)
  then have a: "dedupKey samplePlatform (sampleArticle '' Storm   hits coast! '' 200) =
      js ''storm hits coast''"
    by (simp add: sampleArticle_def samplePlatform_def sampleLower_def isWordChar_def isSpace_def)
  have "\<forall>c \<in> set (dedupKey samplePlatform (sampleArticle '' Storm   hits coast! '' 200)).
          isWordChar c \<or> c = cu CHR '' ''"
    using T by (elim conjE)
  moreover have b: "cu CHR ''s'' \<in> set (js ''storm hits coast'')"
    by simp
  ultimately have c: "isWordChar (cu CHR ''s'')"
    by (auto simp: a)
  have n: "js ''storm hits coast'' \<noteq> []"
    by simp
  have "dedupKey samplePlatform (sampleArticle '' Storm   hits coast! '' 200) = []
        \<or> \<not> isSpace (hd (dedupKey samplePlatform (sampleArticle '' Storm   hits coast! '' 200)))"
    using T by (elim conjE)
  then have h0: "\<not> isSpace (hd (js ''storm hits coast''))"
    by (simp add: a)
  have d: "length (js ''storm hits coast'') < 50"
    by simp
  have "length (dedupKey samplePlatform (sampleArticle '' Storm   hits coast! '' 200)) < 50 \<longrightarrow>
        dedupKey samplePlatform (sampleArticle '' Storm   hits coast! '' 200) = []
        \<or> \<not> isSpace (last (dedupKey samplePlatform (sampleArticle '' Storm   hits coast! '' 200)))"
    using T by (elim conjE)
  then have e: "\<not> isSpace (last (js ''storm hits coast''))"
    by (simp add: a)
  have f: "find (\<lambda>b. dedupKey samplePlatform b = js ''storm hits coast'') sampleArticles =
       Some (sampleArticle ''Storm hits coast'' 100)"
    by (simp add: sampleArticles_def k)
  have g0: "find (\<lambda>b. dedupKey samplePlatform b = js ''no such title'') sampleArticles = None"
    by (simp add: sampleArticles_def k)
  have "filter (\<lambda>b. dedupKey samplePlatform b = js ''storm hits coast'')
         (deduplicateArticles samplePlatform sampleArticles) =
       (case find (\<lambda>b. dedupKey samplePlatform b = js ''storm hits coast'') sampleArticles of
          None \<Rightarrow> [] | Some b \<Rightarrow> [b])"
    using T by (elim conjE)
  then have g: "filter (\<lambda>b. dedupKey samplePlatform b = js ''storm hits coast'')
         (deduplicateArticles samplePlatform sampleArticles) =
       [sampleArticle ''Storm hits coast'' 100]"
    by (simp only: f option.case)
  have "filter (\<lambda>b. dedupKey samplePlatform b = js ''no such title'')
         (deduplicateArticles samplePlatform sampleArticles) =
       (case find (\<lambda>b. dedupKey samplePlatform b = js ''no such title'') sampleArticles of
          None \<Rightarrow> [] | Some b \<Rightarrow> [b])"
    using N by (elim conjE)
  then have h: "filter (\<lambda>b. dedupKey samplePlatform b = js ''no such title'')
         (deduplicateArticles samplePlatform sampleArticles) = []"
    by (simp only: g0 option.case)
  from a b c n h0 d e f g h show ?thesis by (intro conjI)
qed

text \<open>
  Claim C4 (cap). For every input the aggregated list has at most \<open>maxArticles\<close>
  entries, and that constant is 100.
\<close>

theorem processAllArticles_cap:
  "length (articles (processAllArticles P s)) \<le> maxArticles \<and> maxArticles = 100"
  by (simp add: processAllArticles_articles) (simp add: maxArticles_def)

text \<open>
  Claim C5 (sort). For every input the aggregated list is in non-increasing order of
  \<open>publishedAt\<close>, and the sort is stable: for every timestamp, the aggregated articles
  with that timestamp are an initial segment of the deduplicated articles with that
  timestamp, in the same order, and hence appear in the order of the input.
\<close>

theorem processAllArticles_sorted_stable:
  "(\<forall>i. Suc i < length (articles (processAllArticles P s)) \<longrightarrow>
        art_publishedAt (articles (processAllArticles P s) ! Suc i)
          \<le> art_publishedAt (articles (processAllArticles P s) ! i))
   \<and> (\<forall>t. prefix (filter (\<lambda>a. art_publishedAt a = t) (articles (processAllArticles P s)))
              (filter (\<lambda>a. art_publishedAt a = t) (deduplicateArticles P (allArticles s))))
   \<and> (\<forall>t. subseq (filter (\<lambda>a. art_publishedAt a = t) (articles (processAllArticles P s)))
              (filter (\<lambda>a. art_publishedAt a = t) (allArticles s)))"
proof (intro conjI allI impI)
  fix i
  assume i: "Suc i < length (articles (processAllArticles P s))"
  let ?out = "articles (processAllArticles P s)"
  have "map (\<lambda>a. - art_publishedAt a) ?out ! i \<le> map (\<lambda>a. - art_publishedAt a) ?out ! Suc i"
    using processed_sorted [of P s] i by (intro sorted_nth_mono) simp_all
  then show "art_publishedAt (?out ! Suc i) \<le> art_publishedAt (?out ! i)"
    using i by simp
next
  fix t
  let ?d = "deduplicateArticles P (allArticles s)"
  let ?Q = "\<lambda>a. art_publishedAt a = t"
  have eq: "?Q = (\<lambda>a. - art_publishedAt a = - t)" by auto
  have stable: "filter ?Q (sort_key (\<lambda>a. - art_publishedAt a) ?d) = filter ?Q ?d"
    unfolding eq by (rule sort_key_stable)
  show pre: "prefix (filter ?Q (articles (processAllArticles P s))) (filter ?Q ?d)"
    using filter_take_prefix [of ?Q maxArticles "sort_key (\<lambda>a. - art_publishedAt a) ?d"]
    by (simp add: processAllArticles_articles stable)
  have "subseq (filter ?Q ?d) (filter ?Q (allArticles s))"
    by (simp add: deduplicateArticles_def dedupLoop_subseq)
  then show "subseq (filter ?Q (articles (processAllArticles P s))) (filter ?Q (allArticles s))"
    using pre prefix_imp_subseq subseq_order.trans by blast
qed

theorem processAllArticles_sorted_stable_witness:
  "Suc 0 < length (articles (processAllArticles samplePlatform (initialState\<lparr>allArticles := sampleArticles\<rparr>)))
   \<and> art_publishedAt
         (articles (processAllArticles samplePlatform (initialState\<lparr>allArticles := sampleArticles\<rparr>)) ! Suc 0)
       \<le> art_publishedAt
         (articles (processAllArticles samplePlatform (initialState\<lparr>allArticles := sampleArticles\<rparr>)) ! 0)"
proof -
  have "length (map art_title
          (articles (processAllArticles samplePlatform (initialState\<lparr>allArticles := sampleArticles\<rparr>)))) = 3"
    by (simp only: sample_processed) simp
  then have len:
    "Suc 0 < length (articles (processAllArticles samplePlatform (initialState\<lparr>allArticles := sampleArticles\<rparr>)))"
    by simp
  from processAllArticles_sorted_stable [of samplePlatform "initialState\<lparr>allArticles := sampleArticles\<rparr>"] len
  show ?thesis by blast
qed

text \<open>
  Claim C6 (idempotence). Running the aggregation on the articles of an aggregated result
  yields the same list of articles, whatever the rest of the state is.
\<close>

theorem processAllArticles_idempotent:
  "articles (processAllArticles P (s'\<lparr>allArticles := articles (processAllArticles P s)\<rparr>)) =
     articles (processAllArticles P s)"
proof -
  let ?out = "articles (processAllArticles P s)"
  have d: "deduplicateArticles P ?out = ?out"
    using processed_distinct_keys [of P s] by (simp add: deduplicateArticles_def dedupLoop_id)
  have so: "sort_key (\<lambda>a. - art_publishedAt a) ?out = ?out"
    using processed_sorted [of P s] by (rule sort_key_id_if_sorted)
  have "length ?out \<le> maxArticles"
    by (simp add: processAllArticles_articles)
  then have "take maxArticles ?out = ?out" by simp
  then show ?thesis
    by (simp add: processAllArticles_articles [of P "s'\<lparr>allArticles := ?out\<rparr>"] d so)
qed



text \<open>
  Claim C8 (two-stage cap per source). For a document that parses, the articles parsed are
  those extracted from its first ten items, in document order, and the source contributes
  the first five (\<open>maxArticlesPerSource\<close>) of them to \<open>allArticles\<close>.
\<close>

theorem parse_two_stage_cap:
  assumes "parseFromString P xmlText = Document items"
  shows
    "parseRSSFeed P now xmlText src =
       List.map_filter (\<lambda>it. extractArticleFromItem P now it src) (take 10 items)
     \<and> allArticles (fst (loadSingleSource P now s src (HttpResponse True status (Some xmlText)))) =
         allArticles s @
           take 5 (List.map_filter (\<lambda>it. extractArticleFromItem P now it src) (take 10 items))
     \<and> length (take 5 (List.map_filter (\<lambda>it. extractArticleFromItem P now it src) (take 10 items)))
         \<le> 5
     \<and> maxArticlesPerSource = 5"
  using assms
  by (simp add: parseRSSFeed_Document loadSingleSource_state contribution_def maxArticlesPerSource_def)

theorem parse_two_stage_cap_witness:
  "parseFromString samplePlatform (js ''<rss>twelve items</rss>'') = Document sampleItems
   \<and> length sampleItems = 12
   \<and> map art_title
        (parseRSSFeed samplePlatform 1793700004000 (js ''<rss>twelve items</rss>'') (sampleSource ''b'')) =
       map js [''n01'', ''n03'', ''n05'', ''n06'', ''n07'', ''n08'', ''n09'', ''n10'']
   \<and> map art_title
        (allArticles (fst (loadSingleSource samplePlatform 1793700004000 initialState
           (sampleSource ''b'') (HttpResponse True 200 (Some (js ''<rss>twelve items</rss>'')))))) =
       map js [''n01'', ''n03'', ''n05'', ''n06'', ''n07'']"
proof -
  note T = parse_two_stage_cap [OF sample_document, of 1793700004000 "sampleSource ''b''"
      initialState 200]
  have "parseRSSFeed samplePlatform 1793700004000 (js ''<rss>twelve items</rss>'') (sampleSource ''b'') =
      List.map_filter
        (\<lambda>it. extractArticleFromItem samplePlatform 1793700004000 it (sampleSource ''b''))
        (take 10 sampleItems)"
    using T by (elim conjE)
  then have a: "map art_title
        (parseRSSFeed samplePlatform 1793700004000 (js ''<rss>twelve items</rss>'') (sampleSource ''b'')) =
       map js [''n01'', ''n03'', ''n05'', ''n06'', ''n07'', ''n08'', ''n09'', ''n10'']"
    by (simp only: sample_extracted_titles)
  have "allArticles (fst (loadSingleSource samplePlatform 1793700004000 initialState
           (sampleSource ''b'') (HttpResponse True 200 (Some (js ''<rss>twelve items</rss>''))))) =
        allArticles initialState @ take 5 (List.map_filter
          (\<lambda>it. extractArticleFromItem samplePlatform 1793700004000 it (sampleSource ''b''))
          (take 10 sampleItems))"
    using T by (elim conjE)
  then have b: "map art_title
        (allArticles (fst (loadSingleSource samplePlatform 1793700004000 initialState
           (sampleSource ''b'') (HttpResponse True 200 (Some (js ''<rss>twelve items</rss>'')))))) =
       map js [''n01'', ''n03'', ''n05'', ''n06'', ''n07'']"
    by (simp add: initialState_def sample_extracted_titles flip: take_map)
  from sample_document sample_length a b show ?thesis by (intro conjI)
qed

text \<open>
  Claim C9 (URL sanitization does not prevent construction). An item with a title and a link
  (or guid) yields an article whatever the sanitizer makes of the link: its url is
  \<open>None\<close> (\<^verbatim>\<open>null\<close>) when the link does not parse as a URL or its scheme is neither
  http nor https, and the canonical string otherwise.
\<close>

theorem extractArticleFromItem_keeps_null_url:
  assumes "getElementText (el_title it) \<noteq> []" and "itemLink it \<noteq> []"
  shows
    "\<exists>a. extractArticleFromItem P now it src = Some a
       \<and> art_url a = sanitizeUrl P (itemLink it)
       \<and> (newURL P (itemLink it) = None \<longrightarrow> art_url a = None)
       \<and> (\<forall>u. newURL P (itemLink it) = Some u \<and> protocol u \<noteq> js ''https:'' \<and> protocol u \<noteq> js ''http:''
              \<longrightarrow> art_url a = None)
       \<and> (\<forall>u. newURL P (itemLink it) = Some u \<and> (protocol u = js ''https:'' \<or> protocol u = js ''http:'')
              \<longrightarrow> art_url a = Some (href u))"
  using assms
  by (auto simp: extractArticleFromItem_def Let_def sanitizeUrl_def)

theorem extractArticleFromItem_keeps_null_url_witness:
  "getElementText (el_title (sampleItem ''n03'' (Some ''ftp://b.example/03''))) \<noteq> []
   \<and> itemLink (sampleItem ''n03'' (Some ''ftp://b.example/03'')) \<noteq> []
   \<and> (\<exists>a. extractArticleFromItem samplePlatform 0 (sampleItem ''n03'' (Some ''ftp://b.example/03''))
              (sampleSource ''b'') = Some a \<and> art_url a = None)
   \<and> (\<exists>a. extractArticleFromItem samplePlatform 0 (sampleItem ''n05'' (Some ''no url at all''))
              (sampleSource ''b'') = Some a \<and> art_url a = None)
   \<and> (\<exists>a. extractArticleFromItem samplePlatform 0 (sampleItem ''n06'' (Some ''http://b.example/06''))
              (sampleSource ''b'') = Some a \<and> art_url a = Some (js ''http://b.example/06''))"
proof -
  have t: "getElementText (el_title (sampleItem ''n03'' (Some ''ftp://b.example/03''))) \<noteq> []"
    "getElementText (el_title (sampleItem ''n05'' (Some ''no url at all''))) \<noteq> []"
    "getElementText (el_title (sampleItem ''n06'' (Some ''http://b.example/06''))) \<noteq> []"
    by (simp_all add: sampleItem_def getElementText_def trim_def isSpace_def)
  have l: "itemLink (sampleItem ''n03'' (Some ''ftp://b.example/03'')) = js ''ftp://b.example/03''"
    "itemLink (sampleItem ''n05'' (Some ''no url at all'')) = js ''no url at all''"
    "itemLink (sampleItem ''n06'' (Some ''http://b.example/06'')) = js ''http://b.example/06''"
    by (simp_all add: sampleItem_def itemLink_def getElementText_def trim_def isSpace_def)
  have u: "newURL samplePlatform (js ''ftp://b.example/03'') =
             Some \<lparr>protocol = js ''ftp:'', pathname = js ''/'', href = js ''ftp://b.example/03''\<rparr>"
    "newURL samplePlatform (js ''no url at all'') = None"
    "newURL samplePlatform (js ''http://b.example/06'') =
             Some \<lparr>protocol = js ''http:'', pathname = js ''/'', href = js ''http://b.example/06''\<rparr>"
    by (simp_all add: samplePlatform_def)
  have n: "itemLink (sampleItem ''n03'' (Some ''ftp://b.example/03'')) \<noteq> []"
    "itemLink (sampleItem ''n05'' (Some ''no url at all'')) \<noteq> []"
    "itemLink (sampleItem ''n06'' (Some ''http://b.example/06'')) \<noteq> []"
    by (simp_all add: l)
  have a: "\<exists>a. extractArticleFromItem samplePlatform 0 (sampleItem ''n03'' (Some ''ftp://b.example/03''))
              (sampleSource ''b'') = Some a \<and> art_url a = None"
    using extractArticleFromItem_keeps_null_url [OF t(1) n(1), of samplePlatform 0 "sampleSource ''b''"]
    by (simp only: l u) auto
  have b: "\<exists>a. extractArticleFromItem samplePlatform 0 (sampleItem ''n05'' (Some ''no url at all''))
              (sampleSource ''b'') = Some a \<and> art_url a = None"
    using extractArticleFromItem_keeps_null_url [OF t(2) n(2), of samplePlatform 0 "sampleSource ''b''"]
    by (simp only: l u) auto
  have c: "\<exists>a. extractArticleFromItem samplePlatform 0 (sampleItem ''n06'' (Some ''http://b.example/06''))
              (sampleSource ''b'') = Some a \<and> art_url a = Some (js ''http://b.example/06'')"
    using extractArticleFromItem_keeps_null_url [OF t(3) n(3), of samplePlatform 0 "sampleSource ''b''"]
    by (simp only: l u) auto
  from t(1) n(1) a b c show ?thesis by (intro conjI)
qed

text \<open>
  Claim C10 (the timestamp moves before the re-entrancy guard). A manual refresh that
  passes the interval check leaves \<open>lastFetchTime\<close> at the time of the call. When a
  load is in progress, that is all it does: no fetch is issued, and a further manual
  refresh less than the minimum interval later is rejected with the notification.
\<close>

theorem refreshNews_advances_before_guard:
  assumes "\<not> now - lastFetchTime s < minFetchInterval"
  shows
    "lastFetchTime (refreshNews P s now tasks order) = now
     \<and> (isLoading s \<longrightarrow>
          refreshNews P s now tasks order = s\<lparr>lastFetchTime := now\<rparr>
          \<and> fetchLog (refreshNews P s now tasks order) = fetchLog s
          \<and> (\<forall>now' tasks' order'. now' - now < minFetchInterval \<longrightarrow>
                (\<exists>r. refreshNews P (refreshNews P s now tasks order) now' tasks' order' =
                        s\<lparr>lastFetchTime := now, notifications := notifications s @ [PleaseWait r]\<rparr>)))"
  using assms
  by (auto simp: refreshNews_def startProgressiveLoading_lastFetchTime startProgressiveLoading_loading)

theorem refreshNews_advances_before_guard_witness:
  "\<not> 1793700040000 - lastFetchTime (initialState\<lparr>isLoading := True\<rparr>) < minFetchInterval
   \<and> isLoading (initialState\<lparr>isLoading := True\<rparr>)
   \<and> refreshNews samplePlatform (initialState\<lparr>isLoading := True\<rparr>) 1793700040000 sampleTasks sampleOrder =
       initialState\<lparr>isLoading := True, lastFetchTime := 1793700040000\<rparr>
   \<and> (\<exists>r. refreshNews samplePlatform
              (refreshNews samplePlatform (initialState\<lparr>isLoading := True\<rparr>) 1793700040000 sampleTasks sampleOrder)
              1793700050000 sampleTasks sampleOrder =
            initialState\<lparr>isLoading := True, lastFetchTime := 1793700040000,
                          notifications := [PleaseWait r]\<rparr>)"
proof -
  let ?s = "initialState\<lparr>isLoading := True\<rparr>"
  have h1: "\<not> 1793700040000 - lastFetchTime ?s < minFetchInterval"
    by (simp add: initialState_def minFetchInterval_def)
  have h2: "isLoading ?s"
    by simp
  have h3: "(1793700050000::int) - 1793700040000 < minFetchInterval"
    by (simp add: minFetchInterval_def)
  note T = refreshNews_advances_before_guard [OF h1, of samplePlatform sampleTasks sampleOrder]
  have a: "refreshNews samplePlatform ?s 1793700040000 sampleTasks sampleOrder =
             initialState\<lparr>isLoading := True, lastFetchTime := 1793700040000\<rparr>"
    using T h2 by blast
  have "\<exists>r. refreshNews samplePlatform (refreshNews samplePlatform ?s 1793700040000 sampleTasks sampleOrder)
              1793700050000 sampleTasks sampleOrder =
            ?s\<lparr>lastFetchTime := 1793700040000, notifications := notifications ?s @ [PleaseWait r]\<rparr>"
    using T h2 h3 by blast
  then have b: "\<exists>r. refreshNews samplePlatform
              (refreshNews samplePlatform ?s 1793700040000 sampleTasks sampleOrder) 1793700050000 sampleTasks sampleOrder =
            initialState\<lparr>isLoading := True, lastFetchTime := 1793700040000,
                          notifications := [PleaseWait r]\<rparr>"
    by (simp add: initialState_def)
  from h1 h2 a b show ?thesis by (intro conjI)
qed

end
